theory Spec2Isabelle
  imports Main
begin

section \<open>JSON values and JavaScript property access\<close>

text \<open>
  The notification pipeline passes JSON documents around: the payload column of an event,
  the row serialised by \<open>row_to_json(NEW)\<close>, the object the dispatcher gets from
  \<open>JSON.parse\<close> and the object it hands to \<open>JSON.stringify\<close>. Numbers are the
  integers the pipeline carries (identifiers, quantities, thresholds, millisecond clocks);
  a price is the exact \<open>numeric(12,2)\<close> column value counted in hundredths.
  \<open>JTime t\<close> is a timestamp (\<open>new Date().toISOString()\<close>, a \<open>timestamptz\<close>
  column) at clock value \<open>t\<close>; \<open>JUndefined\<close> is what JavaScript yields for a key
  that is absent.
\<close>

datatype json =
    JUndefined
  | JNull
  | JNum int
  | JStr string
  | JTime int
  | JObj "(string \<times> json) list"

text \<open>
  \<open>x.k\<close> in JavaScript: on \<open>undefined\<close> and \<open>null\<close> it throws a TypeError
  (\<open>None\<close>), on an object it is the field or \<open>undefined\<close>, on any other value
  \<open>undefined\<close>.
\<close>

fun getprop :: "json \<Rightarrow> string \<Rightarrow> json option" where
  "getprop JUndefined k = None"
| "getprop JNull k = None"
| "getprop (JObj kvs) k = Some (case map_of kvs k of None \<Rightarrow> JUndefined | Some v \<Rightarrow> v)"
| "getprop (JNum n) k = Some JUndefined"
| "getprop (JStr s) k = Some JUndefined"
| "getprop (JTime t) k = Some JUndefined"

fun truthy :: "json \<Rightarrow> bool" where
  "truthy JUndefined = False"
| "truthy JNull = False"
| "truthy (JNum n) = (n \<noteq> 0)"
| "truthy (JStr s) = (s \<noteq> [])"
| "truthy (JTime t) = True"
| "truthy (JObj kvs) = True"

definition js_or :: "json \<Rightarrow> json \<Rightarrow> json" where
  "js_or a b = (if truthy a then a else b)"

section \<open>Subscription registry and streaming endpoint (sse/events.ts)\<close>

text \<open>
  A frame written with \<open>res.write\<close>: the optional \<open>event:\<close> line (the value that the
  template string interpolates) and the document of the \<open>data:\<close> line before
  \<open>JSON.stringify\<close>.
\<close>

record frame =
  fr_event :: "json option"
  fr_data :: json

text \<open>
  The response object \<open>res\<close> of one connection: the frames written to it so far and
  whether the server has ended it (\<open>res.end()\<close>).
\<close>

record transport =
  written :: "frame list"
  ended :: bool

text \<open>
  \<open>type Client = { id, res, sellerId, heartbeat, lastActivity }\<close>. The two fields that
  are references (\<open>res\<close>, \<open>heartbeat\<close>) live in the stores \<open>sockets\<close> and
  \<open>timers\<close> of the module state, under the client's id.
\<close>

record client =
  client_id :: int
  sellerId :: string
  lastActivity :: int

text \<open>
  Module state: \<open>const clients: Client[]\<close>, \<open>let nextClientId\<close>, the intervals
  that are running (by the id of the client they belong to) and the response objects.
\<close>

record sse =
  clients :: "client list"
  nextClientId :: int
  timers :: "int list"
  sockets :: "int \<Rightarrow> transport"

definition sse_init :: sse where
  "sse_init = \<lparr>clients = [], nextClientId = 1, timers = [],
     sockets = (\<lambda>_. \<lparr>written = [], ended = False\<rparr>)\<rparr>"


definition CLIENT_TIMEOUT :: int where
  "CLIENT_TIMEOUT = 60000"

fun findIndex :: "('a \<Rightarrow> bool) \<Rightarrow> 'a list \<Rightarrow> nat option" where
  "findIndex P [] = None"
| "findIndex P (x # xs) =
     (if P x then Some 0 else (case findIndex P xs of None \<Rightarrow> None | Some i \<Rightarrow> Some (Suc i)))"

definition splice1 :: "nat \<Rightarrow> 'a list \<Rightarrow> 'a list" where
  "splice1 i xs = take i xs @ drop (Suc i) xs"

definition clearInterval :: "int \<Rightarrow> int list \<Rightarrow> int list" where
  "clearInterval h ts = filter (\<lambda>t. t \<noteq> h) ts"

definition removeClient :: "client \<Rightarrow> sse \<Rightarrow> sse" where
  "removeClient c s =
     (case findIndex (\<lambda>x. client_id x = client_id c) (clients s) of
        None \<Rightarrow> s
      | Some idx \<Rightarrow> s\<lparr>timers := clearInterval (client_id c) (timers s),
                     clients := splice1 idx (clients s)\<rparr>)"

definition setupHeartbeat :: "client \<Rightarrow> sse \<Rightarrow> sse" where
  "setupHeartbeat c s = s\<lparr>timers := clearInterval (client_id c) (timers s) @ [client_id c]\<rparr>"

definition res_write :: "int \<Rightarrow> frame \<Rightarrow> sse \<Rightarrow> sse" where
  "res_write cid f s =
     s\<lparr>sockets := (sockets s)(cid := (sockets s cid)\<lparr>written := written (sockets s cid) @ [f]\<rparr>)\<rparr>"

definition touch :: "int \<Rightarrow> int \<Rightarrow> sse \<Rightarrow> sse" where
  "touch cid now s =
     s\<lparr>clients := map (\<lambda>x. if client_id x = cid then x\<lparr>lastActivity := now\<rparr> else x) (clients s)\<rparr>"

definition ping_frame :: "int \<Rightarrow> frame" where
  "ping_frame now = \<lparr>fr_event = Some (JStr ''ping''), fr_data = JNum now\<rparr>"

text \<open>
  The callback of \<open>setInterval\<close> in \<open>setupHeartbeat\<close>, run at clock \<open>now\<close> for the
  client with id \<open>cid\<close>; \<open>ok\<close> says whether \<open>res.write\<close> returns (otherwise it
  throws and the \<open>catch\<close> removes the client). A cleared interval does not run.
\<close>

definition heartbeat_tick :: "int \<Rightarrow> int \<Rightarrow> bool \<Rightarrow> sse \<Rightarrow> sse" where
  "heartbeat_tick cid now ok s =
     (if cid \<in> set (timers s) then
        (case find (\<lambda>x. client_id x = cid) (clients s) of
           None \<Rightarrow> s
         | Some c \<Rightarrow>
             if now - lastActivity c > CLIENT_TIMEOUT then removeClient c s
             else if ok then touch cid now (res_write cid (ping_frame now) s)
             else removeClient c s)
      else s)"

text \<open>
  \<open>req.header('x-seller-id') || req.query.seller_id || 'demo-seller'\<close>: an absent
  value and the empty string are both falsy.
\<close>

definition resolve_seller :: "string option \<Rightarrow> string option \<Rightarrow> string" where
  "resolve_seller hdr qry =
     (case hdr of
        Some h \<Rightarrow> if h \<noteq> [] then h
                  else (case qry of Some q \<Rightarrow> if q \<noteq> [] then q else ''demo-seller''
                                  | None \<Rightarrow> ''demo-seller'')
      | None \<Rightarrow> (case qry of Some q \<Rightarrow> if q \<noteq> [] then q else ''demo-seller''
                          | None \<Rightarrow> ''demo-seller''))"

text \<open>
  Lines 88 to 101 of the stream handler: take the next id, build the client, start its
  heartbeat, push it. The connection brings a new response object.
\<close>

definition register_client :: "string \<Rightarrow> int \<Rightarrow> sse \<Rightarrow> client \<times> sse" where
  "register_client seller now s =
     (let c = \<lparr>client_id = nextClientId s, sellerId = seller, lastActivity = now\<rparr>;
          s1 = s\<lparr>nextClientId := nextClientId s + 1,
                 sockets := (sockets s)(nextClientId s := \<lparr>written = [], ended = False\<rparr>)\<rparr>;
          s2 = setupHeartbeat c s1
      in (c, s2\<lparr>clients := clients s2 @ [c]\<rparr>))"

definition connected_frame :: "string \<Rightarrow> int \<Rightarrow> frame" where
  "connected_frame seller now =
     \<lparr>fr_event = None,
      fr_data = JObj [(''type'', JStr ''Connected''), (''timestamp'', JTime now),
                      (''sellerId'', JStr seller),
                      (''message'', JStr ''SSE connection established'')]\<rparr>"

text \<open>
  \<open>eventsRouter.get('/stream')\<close> with the header and the query parameter of the request;
  \<open>ok\<close> says whether the first \<open>res.write\<close> returns.
\<close>

definition openStream :: "string option \<Rightarrow> string option \<Rightarrow> int \<Rightarrow> bool \<Rightarrow> sse \<Rightarrow> sse" where
  "openStream hdr qry now ok s =
     (let seller = resolve_seller hdr qry;
          (c, s1) = register_client seller now s
      in if ok then touch (client_id c) now (res_write (client_id c) (connected_frame seller now) s1)
         else removeClient c s1)"

section \<open>Broadcast dispatcher (the notification handler of registerEventBroadcaster)\<close>

text \<open>
  The message built for one notification; \<open>None\<close> when building it throws a TypeError
  (\<open>payload.payload.name\<close> on a missing or null \<open>payload.payload\<close>).
\<close>

definition format_message :: "json \<Rightarrow> int \<Rightarrow> frame option" where
  "format_message payload now =
     (case getprop payload ''type'' of
        None \<Rightarrow> None
      | Some ty \<Rightarrow>
          if ty = JStr ''LowStockWarning'' then
            (case (getprop payload ''event'', getprop payload ''product_id'', getprop payload ''payload'') of
               (Some ev, Some pid, Some pl) \<Rightarrow>
                 (case (getprop pl ''name'', getprop pl ''price'', getprop pl ''current_quantity'',
                        getprop pl ''category'') of
                    (Some nm, Some pr, Some qty, Some cat) \<Rightarrow>
                      Some \<lparr>fr_event = Some (js_or ev ty),
                            fr_data = JObj [(''type'', JStr ''LowStockWarning''),
                                            (''timestamp'', JTime now),
                                            (''product'', JObj [(''id'', pid), (''name'', nm),
                                               (''price'', pr), (''quantity'', qty),
                                               (''category'', cat)])]\<rparr>
                  | _ \<Rightarrow> None)
             | _ \<Rightarrow> None)
          else Some \<lparr>fr_event = Some ty, fr_data = payload\<rparr>)"

text \<open>
  The body of \<open>for (const c of targetClients)\<close>: the state and the list
  \<open>deadClients\<close> are threaded through. \<open>wr\<close> says for which clients \<open>res.write\<close>
  returns.
\<close>

definition send_to :: "json \<Rightarrow> int \<Rightarrow> (int \<Rightarrow> bool) \<Rightarrow> client \<Rightarrow> sse \<times> client list \<Rightarrow> sse \<times> client list" where
  "send_to payload now wr c acc =
     (case acc of (s, dead) \<Rightarrow>
        (case format_message payload now of
           None \<Rightarrow> (s, dead @ [c])
         | Some f \<Rightarrow>
             if wr (client_id c)
             then (touch (client_id c) now (res_write (client_id c) f s), dead)
             else (s, dead @ [c])))"

text \<open>
  \<open>pgClient.on('notification', ...)\<close>; \<open>msg\<close> is the parsed payload of the message,
  \<open>None\<close> when it has none (\<open>msg.payload || '{}'\<close>).
\<close>

definition notification_handler :: "json option \<Rightarrow> int \<Rightarrow> (int \<Rightarrow> bool) \<Rightarrow> sse \<Rightarrow> sse" where
  "notification_handler msg now wr s =
     (let payload = (case msg of None \<Rightarrow> JObj [] | Some p \<Rightarrow> p)
      in case getprop payload ''seller_id'' of
           None \<Rightarrow> s
         | Some targetSeller \<Rightarrow>
             (let targetClients = filter (\<lambda>c. JStr (sellerId c) = targetSeller) (clients s);
                  r = fold (send_to payload now wr) targetClients (s, [])
              in fold removeClient (snd r) (fst r)))"

text \<open>
  The states the module can be in: any interleaving of connections, heartbeat callbacks,
  notifications and \<open>close\<close>/\<open>error\<close> events of a request (both call
  \<open>removeClient\<close>), with any outcome of each write and any clock value at each step.
  The runs in which the clock advances and the heartbeats keep their period are singled out
  in the section on the heartbeat schedule.
\<close>

inductive reachable :: "sse \<Rightarrow> bool" where
  r_init: "reachable sse_init"
| r_open: "reachable s \<Longrightarrow> reachable (openStream hdr qry now ok s)"
| r_tick: "reachable s \<Longrightarrow> reachable (heartbeat_tick cid now ok s)"
| r_notify: "reachable s \<Longrightarrow> reachable (notification_handler msg now wr s)"
| r_close: "reachable s \<Longrightarrow> reachable (removeClient c s)"

definition ids_fresh :: "sse \<Rightarrow> bool" where
  "ids_fresh s = (distinct (map client_id (clients s)) \<and>
                  list_all (\<lambda>c. client_id c < nextClientId s) (clients s))"

definition timers_ok :: "sse \<Rightarrow> bool" where
  "timers_ok s = (set (timers s) = set (map client_id (clients s)))"

text \<open>The two facts that hold of the registry in every state the module reaches.\<close>

definition registry_ok :: "sse \<Rightarrow> bool" where
  "registry_ok s = (ids_fresh s \<and> timers_ok s)"

section \<open>The heartbeat schedule\<close>













section \<open>Event Store and Change Notifier (db.ts)\<close>

text \<open>
  Rows of the tables \<open>products\<close> and \<open>events\<close> of \<open>initSchema\<close>. Clock values are
  milliseconds; \<open>product_id\<close> is nullable.
\<close>

record product =
  p_id :: int
  p_seller_id :: string
  p_name :: string
  p_description :: string
  p_price :: int
  p_quantity :: int
  p_category :: string
  p_created_at :: int
  p_updated_at :: int

record event =
  ev_id :: int
  ev_type :: string
  ev_seller_id :: string
  ev_product_id :: "int option"
  ev_payload :: json
  ev_created_at :: int

text \<open>
  The database: both tables in insertion order, the two \<open>serial\<close> sequences, and the
  messages published on \<open>events_channel\<close> with \<open>pg_notify\<close>, oldest first. The tables
  \<open>sales_history\<close> and \<open>ai_recommendations\<close> hold no events and are left out.
\<close>

record db =
  products :: "product list"
  events :: "event list"
  products_id_seq :: int
  events_id_seq :: int
  events_channel :: "json list"

definition db_init :: db where
  "db_init = \<lparr>products = [], events = [], products_id_seq = 1, events_id_seq = 1,
     events_channel = []\<rparr>"

definition row_to_json :: "event \<Rightarrow> json" where
  "row_to_json e =
     JObj [(''id'', JNum (ev_id e)), (''type'', JStr (ev_type e)),
           (''seller_id'', JStr (ev_seller_id e)),
           (''product_id'', (case ev_product_id e of None \<Rightarrow> JNull | Some i \<Rightarrow> JNum i)),
           (''payload'', ev_payload e), (''created_at'', JTime (ev_created_at e))]"

text \<open>
  SQL \<open>=\<close> on a nullable column inside \<open>where\<close>: a comparison with \<open>NULL\<close> is
  unknown, and the row is not selected.
\<close>

fun sql_eq :: "int option \<Rightarrow> int option \<Rightarrow> bool" where
  "sql_eq (Some a) (Some b) = (a = b)"
| "sql_eq None y = False"
| "sql_eq (Some a) None = False"

definition five_seconds :: int where
  "five_seconds = 5000"

text \<open>
  The query of \<open>notify_event\<close>: rows of the same type and product, other than the new
  row, created after \<open>now() - interval '5 seconds'\<close>.
\<close>

definition similar_events :: "int \<Rightarrow> event \<Rightarrow> event list \<Rightarrow> event list" where
  "similar_events now NEW rows =
     filter (\<lambda>e. ev_type e = ev_type NEW \<and> sql_eq (ev_product_id e) (ev_product_id NEW)
                  \<and> ev_id e \<noteq> ev_id NEW \<and> ev_created_at e > now - five_seconds) rows"

text \<open>\<open>order by created_at desc limit 1\<close>.\<close>

fun latest :: "event list \<Rightarrow> event option" where
  "latest [] = None"
| "latest (e # es) =
     (case latest es of
        None \<Rightarrow> Some e
      | Some m \<Rightarrow> if ev_created_at m > ev_created_at e then Some m else Some e)"

text \<open>
  The trigger function, run after the insert of \<open>NEW\<close> in the transaction whose
  \<open>now()\<close> is \<open>now\<close>: \<open>last_similar_event.id is null\<close> exactly when the query found
  no row.
\<close>

definition notify_event :: "int \<Rightarrow> event \<Rightarrow> db \<Rightarrow> db" where
  "notify_event now NEW d =
     (case latest (similar_events now NEW (events d)) of
        None \<Rightarrow> d\<lparr>events_channel := events_channel d @ [row_to_json NEW]\<rparr>
      | Some last_similar_event \<Rightarrow> d)"

text \<open>
  \<open>INSERT INTO events (type, seller_id, product_id, payload)\<close> as its own transaction:
  the row gets the next id and \<open>created_at = now()\<close>, then the trigger runs.
\<close>

definition new_event :: "int \<Rightarrow> string \<Rightarrow> string \<Rightarrow> int option \<Rightarrow> json \<Rightarrow> db \<Rightarrow> event" where
  "new_event now ty seller pid payload d =
     \<lparr>ev_id = events_id_seq d, ev_type = ty, ev_seller_id = seller, ev_product_id = pid,
      ev_payload = payload, ev_created_at = now\<rparr>"

definition insert_event :: "int \<Rightarrow> string \<Rightarrow> string \<Rightarrow> int option \<Rightarrow> json \<Rightarrow> db \<Rightarrow> db" where
  "insert_event now ty seller pid payload d =
     (let NEW = new_event now ty seller pid payload d
      in notify_event now NEW
           (d\<lparr>events := events d @ [NEW], events_id_seq := events_id_seq d + 1\<rparr>))"

section \<open>Catalog mutations (routes/products.ts) and the low-stock evaluator\<close>

datatype error = AppError int string | DbError

text \<open>
  What a handler does with the request: \<open>res.status(code).json(...)\<close> with the product
  it returns, or \<open>next(error)\<close>.
\<close>

datatype response = Responded int "product option" | NextError error

text \<open>
  The outcomes the handlers cannot decide themselves, one flag per statement sent to the
  database: the statement(s) on \<open>products\<close> (for delete, the statements of the
  transaction), the insert of the primary event, the insert of the low-stock event, and
  the select that follows it.
\<close>

record env =
  mutation_ok :: bool
  event_ok :: bool
  lowstock_ok :: bool
  verify_ok :: bool

text \<open>
  \<open>emitEvent\<close>: the insert goes through \<open>pool.query\<close>, and the \<open>catch\<close> logs the
  failure and returns.
\<close>

definition emitEvent :: "bool \<Rightarrow> int \<Rightarrow> string \<Rightarrow> string \<Rightarrow> int option \<Rightarrow> json \<Rightarrow> db \<Rightarrow> db" where
  "emitEvent ok now ty seller pid payload d =
     (if ok then insert_event now ty seller pid payload d else d)"

definition product_json :: "product \<Rightarrow> json" where
  "product_json p =
     JObj [(''id'', JNum (p_id p)), (''seller_id'', JStr (p_seller_id p)),
           (''name'', JStr (p_name p)), (''description'', JStr (p_description p)),
           (''price'', JNum (p_price p)), (''quantity'', JNum (p_quantity p)),
           (''category'', JStr (p_category p)), (''created_at'', JTime (p_created_at p)),
           (''updated_at'', JTime (p_updated_at p))]"

definition low_stock_payload :: "int \<Rightarrow> product \<Rightarrow> json" where
  "low_stock_payload threshold p =
     JObj [(''id'', JNum (p_id p)), (''name'', JStr (p_name p)),
           (''product_name'', JStr (p_name p)), (''current_quantity'', JNum (p_quantity p)),
           (''threshold'', JNum threshold),
           (''category'', JStr (if p_category p = [] then ''N/A'' else p_category p)),
           (''price'', JNum (p_price p))]"

text \<open>
  \<open>checkAndEmitLowStockWarning\<close> with \<open>config.LOW_STOCK_THRESHOLD\<close> as a parameter.
  The result is the error it rethrows, if any, and the database.
\<close>

definition checkAndEmitLowStockWarning ::
    "int \<Rightarrow> bool \<Rightarrow> bool \<Rightarrow> int \<Rightarrow> product \<Rightarrow> string \<Rightarrow> db \<Rightarrow> error option \<times> db" where
  "checkAndEmitLowStockWarning threshold ins_ok sel_ok now p seller d =
     (if p_quantity p \<le> threshold then
        (if ins_ok then
           (let d1 = insert_event now ''LowStockWarning'' seller (Some (p_id p))
                       (low_stock_payload threshold p) d
            in if sel_ok then (None, d1) else (Some DbError, d1))
         else (Some DbError, d))
      else (None, d))"

record create_input =
  ci_name :: string
  ci_description :: "string option"
  ci_price :: int
  ci_quantity :: int
  ci_category :: string

definition created_row :: "int \<Rightarrow> string \<Rightarrow> create_input \<Rightarrow> db \<Rightarrow> product" where
  "created_row now seller inp d =
     \<lparr>p_id = products_id_seq d, p_seller_id = seller, p_name = ci_name inp,
      p_description = (case ci_description inp of None \<Rightarrow> [] | Some x \<Rightarrow> x),
      p_price = ci_price inp, p_quantity = ci_quantity inp, p_category = ci_category inp,
      p_created_at = now, p_updated_at = now\<rparr>"

text \<open>\<open>productsRouter.post('/')\<close>.\<close>

definition create_product ::
    "int \<Rightarrow> env \<Rightarrow> int \<Rightarrow> string \<Rightarrow> create_input \<Rightarrow> db \<Rightarrow> response \<times> db" where
  "create_product threshold ev now seller inp d =
     (if mutation_ok ev then
        (let p = created_row now seller inp d;
             d1 = d\<lparr>products := products d @ [p], products_id_seq := products_id_seq d + 1\<rparr>;
             d2 = emitEvent (event_ok ev) now ''ProductCreated'' seller (Some (p_id p))
                    (JObj [(''product'', product_json p)]) d1;
             r = checkAndEmitLowStockWarning threshold (lowstock_ok ev) (verify_ok ev) now p seller d2
         in case fst r of
              Some e \<Rightarrow> (NextError e, snd r)
            | None \<Rightarrow> (Responded 201 (Some p), snd r))
      else (NextError DbError, d))"

record update_input =
  ui_name :: "string option"
  ui_description :: "string option"
  ui_price :: "int option"
  ui_quantity :: "int option"
  ui_category :: "string option"

definition no_fields :: "update_input \<Rightarrow> bool" where
  "no_fields u = (ui_name u = None \<and> ui_description u = None \<and> ui_price u = None
                  \<and> ui_quantity u = None \<and> ui_category u = None)"

definition apply_update :: "update_input \<Rightarrow> int \<Rightarrow> product \<Rightarrow> product" where
  "apply_update u now p =
     p\<lparr>p_name := (case ui_name u of None \<Rightarrow> p_name p | Some x \<Rightarrow> x),
       p_description := (case ui_description u of None \<Rightarrow> p_description p | Some x \<Rightarrow> x),
       p_price := (case ui_price u of None \<Rightarrow> p_price p | Some x \<Rightarrow> x),
       p_quantity := (case ui_quantity u of None \<Rightarrow> p_quantity p | Some x \<Rightarrow> x),
       p_category := (case ui_category u of None \<Rightarrow> p_category p | Some x \<Rightarrow> x),
       p_updated_at := now\<rparr>"

definition owned :: "int \<Rightarrow> string \<Rightarrow> product \<Rightarrow> bool" where
  "owned i seller p = (p_id p = i \<and> p_seller_id p = seller)"

text \<open>
  \<open>productsRouter.put('/:id')\<close>; the id is \<open>None\<close> when \<open>parseInt\<close> gives NaN.
\<close>

definition update_product ::
    "int \<Rightarrow> env \<Rightarrow> int \<Rightarrow> string \<Rightarrow> int option \<Rightarrow> update_input \<Rightarrow> db \<Rightarrow> response \<times> db" where
  "update_product threshold ev now seller ident u d =
     (case ident of
        None \<Rightarrow> (NextError (AppError 400 ''Invalid product ID''), d)
      | Some i \<Rightarrow>
          if no_fields u then (NextError (AppError 400 ''No fields to update''), d)
          else if mutation_ok ev then
            (case filter (owned i seller) (products d) of
               [] \<Rightarrow> (NextError (AppError 404 ''Product not found or access denied''), d)
             | old # rest \<Rightarrow>
                 (let p = apply_update u now old;
                      d1 = d\<lparr>products := map (\<lambda>x. if owned i seller x then apply_update u now x else x)
                                             (products d)\<rparr>;
                      d2 = emitEvent (event_ok ev) now ''ProductUpdated'' seller (Some (p_id p))
                             (JObj [(''product'', product_json p)]) d1;
                      r = checkAndEmitLowStockWarning threshold (lowstock_ok ev) (verify_ok ev)
                            now p seller d2
                  in case fst r of
                       Some e \<Rightarrow> (NextError e, snd r)
                     | None \<Rightarrow> (Responded 200 (Some p), snd r)))
          else (NextError DbError, d))"

text \<open>
  Lines 206 to 225 of the delete handler, from \<open>BEGIN\<close> to \<open>COMMIT\<close> or
  \<open>ROLLBACK\<close>: the rows the \<open>DELETE ... RETURNING\<close> gave and the database afterwards.
  A rollback restores the database of \<open>BEGIN\<close>.
\<close>

definition delete_tx :: "string \<Rightarrow> int \<Rightarrow> db \<Rightarrow> product list \<times> db" where
  "delete_tx seller i d =
     (let d1 = d\<lparr>events := filter (\<lambda>e. \<not> sql_eq (ev_product_id e) (Some i)) (events d)\<rparr>;
          rows = filter (owned i seller) (products d1);
          d2 = d1\<lparr>products := filter (\<lambda>p. \<not> owned i seller p) (products d1)\<rparr>
      in case rows of [] \<Rightarrow> ([], d) | r # rest \<Rightarrow> (rows, d2))"

text \<open>\<open>productsRouter.delete('/:id')\<close>.\<close>

definition delete_product ::
    "env \<Rightarrow> int \<Rightarrow> string \<Rightarrow> int option \<Rightarrow> db \<Rightarrow> response \<times> db" where
  "delete_product ev now seller ident d =
     (case ident of
        None \<Rightarrow> (NextError (AppError 400 ''Invalid product ID''), d)
      | Some i \<Rightarrow>
          if mutation_ok ev then
            (case delete_tx seller i d of
               ([], d') \<Rightarrow> (NextError (AppError 404 ''Product not found or access denied''), d')
             | (r # rest, d') \<Rightarrow>
                 (Responded 200 None,
                  emitEvent (event_ok ev) now ''ProductDeleted'' seller (Some (p_id r))
                    (JObj [(''productId'', JNum (p_id r))]) d'))
          else (NextError DbError, d))"

section \<open>Example data\<close>

text \<open>A product of seller \<open>s1\<close> with three pieces left, used in the examples below.\<close>

definition mug :: product where
  "mug = \<lparr>p_id = 7, p_seller_id = ''s1'', p_name = ''Mug'', p_description = [],
     p_price = 1250, p_quantity = 3, p_category = ''Kitchen'', p_created_at = 0,
     p_updated_at = 10\<rparr>"

text \<open>
  Two requests to create a product, one below the low-stock threshold of 5 and one above
  it; the outcomes of a request in which every statement succeeds; and the database after
  the first product has been created in the empty database.
\<close>

definition mug_input :: create_input where
  "mug_input = \<lparr>ci_name = ''Mug'', ci_description = None, ci_price = 1250, ci_quantity = 3,
     ci_category = ''Kitchen''\<rparr>"

definition lamp_input :: create_input where
  "lamp_input = \<lparr>ci_name = ''Lamp'', ci_description = Some ''Desk lamp'', ci_price = 3999,
     ci_quantity = 10, ci_category = ''Home''\<rparr>"

definition all_ok :: env where
  "all_ok = \<lparr>mutation_ok = True, event_ok = True, lowstock_ok = True, verify_ok = True\<rparr>"

definition shop :: db where
  "shop = snd (create_product 5 \<lparr>mutation_ok = True, event_ok = True, lowstock_ok = True,
     verify_ok = True\<rparr> 0 ''s1'' mug_input db_init)"

section \<open>Properties of the registry\<close>

subsection \<open>Lists: findIndex and splice\<close>

lemma findIndex_None: "findIndex P xs = None \<longleftrightarrow> \<not> list_ex P xs"
  by (induction xs) (auto split: option.splits)

lemma findIndex_Some_lt: "findIndex P xs = Some i \<Longrightarrow> i < length xs"
  by (induction xs arbitrary: i) (auto split: option.splits if_splits)

lemma findIndex_hit: "findIndex P xs = Some i \<Longrightarrow> P (xs ! i)"
  by (induction xs arbitrary: i) (auto split: option.splits if_splits)

lemma findIndex_append_fresh:
  "\<not> list_ex P xs \<Longrightarrow> P c \<Longrightarrow> findIndex P (xs @ [c]) = Some (length xs)"
  by (induction xs) auto

lemma splice1_last: "splice1 (length xs) (xs @ [c]) = xs"
  by (simp add: splice1_def)

lemma set_splice1: "set (splice1 i xs) \<subseteq> set xs"
  by (auto simp: splice1_def dest: in_set_takeD in_set_dropD)

lemma map_splice1: "map f (splice1 i xs) = splice1 i (map f xs)"
  by (simp add: splice1_def take_map drop_map)

lemma distinct_splice1: "distinct xs \<Longrightarrow> distinct (splice1 i xs)"
proof -
  assume d: "distinct xs"
  then have "distinct (take i xs @ drop i xs)" by simp
  then have "set (take i xs) \<inter> set (drop i xs) = {}" by (simp only: distinct_append)
  moreover have "set (drop (Suc i) xs) \<subseteq> set (drop i xs)"
    by (rule set_drop_subset_set_drop) simp
  ultimately have "set (take i xs) \<inter> set (drop (Suc i) xs) = {}" by blast
  with d show ?thesis by (simp add: splice1_def)
qed

lemma splice1_removes:
  "distinct (map f xs) \<Longrightarrow> i < length xs \<Longrightarrow> f (xs ! i) \<notin> f ` set (splice1 i xs)"
proof -
  assume d: "distinct (map f xs)" and i: "i < length xs"
  have "map f xs = take i (map f xs) @ f (xs ! i) # drop (Suc i) (map f xs)"
    using i id_take_nth_drop [of i "map f xs"] by simp
  with d have "distinct (take i (map f xs) @ f (xs ! i) # drop (Suc i) (map f xs))" by simp
  then have "f (xs ! i) \<notin> set (take i (map f xs)) \<union> set (drop (Suc i) (map f xs))"
    by auto
  then show ?thesis by (simp add: splice1_def take_map drop_map image_Un)
qed

lemma set_splice1_distinct:
  "distinct xs \<Longrightarrow> i < length xs \<Longrightarrow> set (splice1 i xs) = set xs - {xs ! i}"
proof -
  assume d: "distinct xs" and i: "i < length xs"
  have e: "xs = take i xs @ xs ! i # drop (Suc i) xs"
    using i id_take_nth_drop [of i xs] by simp
  with d have dd: "distinct (take i xs @ xs ! i # drop (Suc i) xs)" by simp
  have "set xs = set (take i xs) \<union> {xs ! i} \<union> set (drop (Suc i) xs)"
    using arg_cong [OF e, of set] by simp
  moreover from dd have "xs ! i \<notin> set (take i xs)" "xs ! i \<notin> set (drop (Suc i) xs)" by auto
  ultimately show ?thesis by (auto simp: splice1_def)
qed

lemma list_ex_iff_id: "list_ex (\<lambda>x. f x = k) xs \<longleftrightarrow> k \<in> f ` set xs"
  by (auto simp: list_ex_iff)


subsection \<open>What each operation leaves alone\<close>

lemma removeClient_sockets [simp]: "sockets (removeClient c s) = sockets s"
  by (simp add: removeClient_def split: option.splits)

lemma removeClient_next [simp]: "nextClientId (removeClient c s) = nextClientId s"
  by (simp add: removeClient_def split: option.splits)

lemma touch_ids [simp]: "map client_id (clients (touch cid now s)) = map client_id (clients s)"
  by (simp add: touch_def comp_def if_distrib [of client_id] cong: if_cong)

lemma touch_next [simp]: "nextClientId (touch cid now s) = nextClientId s"
  by (simp add: touch_def)

lemma touch_sockets [simp]: "sockets (touch cid now s) = sockets s"
  by (simp add: touch_def)

lemma touch_timers [simp]: "timers (touch cid now s) = timers s"
  by (simp add: touch_def)

lemma res_write_clients [simp]: "clients (res_write cid f s) = clients s"
  by (simp add: res_write_def)

lemma res_write_next [simp]: "nextClientId (res_write cid f s) = nextClientId s"
  by (simp add: res_write_def)

lemma res_write_timers [simp]: "timers (res_write cid f s) = timers s"
  by (simp add: res_write_def)

lemma res_write_other: "k \<noteq> cid \<Longrightarrow> sockets (res_write cid f s) k = sockets s k"
  by (simp add: res_write_def)

lemma send_to_shape:
  "map client_id (clients (fst (send_to p now wr c acc))) = map client_id (clients (fst acc))
   \<and> nextClientId (fst (send_to p now wr c acc)) = nextClientId (fst acc)"
  by (cases acc) (simp add: send_to_def split: option.splits)

lemma fold_send_to_shape:
  "map client_id (clients (fst (fold (send_to p now wr) cs acc))) = map client_id (clients (fst acc))
   \<and> nextClientId (fst (fold (send_to p now wr) cs acc)) = nextClientId (fst acc)"
  by (induction cs arbitrary: acc) (simp_all add: send_to_shape)

lemma send_to_timers: "timers (fst (send_to p now wr c acc)) = timers (fst acc)"
  by (cases acc) (simp add: send_to_def split: option.splits)

lemma fold_send_to_timers: "timers (fst (fold (send_to p now wr) cs acc)) = timers (fst acc)"
  by (induction cs arbitrary: acc) (simp_all add: send_to_timers)

lemma send_to_other:
  "k \<noteq> client_id c \<Longrightarrow> sockets (fst (send_to p now wr c acc)) k = sockets (fst acc) k"
  by (cases acc) (simp add: send_to_def res_write_other split: option.splits)

lemma fold_send_to_other:
  "k \<notin> client_id ` set cs \<Longrightarrow>
   sockets (fst (fold (send_to p now wr) cs acc)) k = sockets (fst acc) k"
  by (induction cs arbitrary: acc) (simp_all add: send_to_other)

lemma send_to_hit:
  "format_message p now = Some f \<Longrightarrow> wr (client_id c) \<Longrightarrow>
   sockets (fst (send_to p now wr c acc)) (client_id c)
   = (sockets (fst acc) (client_id c))\<lparr>written := written (sockets (fst acc) (client_id c)) @ [f]\<rparr>"
  by (cases acc) (simp add: send_to_def res_write_def)

lemma fold_send_to_hit:
  "format_message p now = Some f \<Longrightarrow> wr k \<Longrightarrow> distinct (map client_id cs) \<Longrightarrow>
   k \<in> client_id ` set cs \<Longrightarrow>
   sockets (fst (fold (send_to p now wr) cs acc)) k
   = (sockets (fst acc) k)\<lparr>written := written (sockets (fst acc) k) @ [f]\<rparr>"
proof (induction cs arbitrary: acc)
  case Nil
  then show ?case by simp
next
  case (Cons c cs)
  show ?case
  proof (cases "k = client_id c")
    case True
    with Cons.prems have "k \<notin> client_id ` set cs" by auto
    then have "sockets (fst (fold (send_to p now wr) cs (send_to p now wr c acc))) k
               = sockets (fst (send_to p now wr c acc)) k"
      by (rule fold_send_to_other)
    with True Cons.prems(1,2) show ?thesis by (simp add: send_to_hit)
  next
    case False
    with Cons.prems have "k \<in> client_id ` set cs" "distinct (map client_id cs)" by auto
    with Cons.IH [OF Cons.prems(1,2), of "send_to p now wr c acc"] False show ?thesis
      by (simp add: send_to_other)
  qed
qed

lemma fold_removeClient_sockets [simp]: "sockets (fold removeClient ds s) = sockets s"
  by (induction ds arbitrary: s) simp_all

subsection \<open>Client ids are unique and every registered client has its timer\<close>

lemma removeClient_ids_fresh: "ids_fresh s \<Longrightarrow> ids_fresh (removeClient c s)"
  using set_splice1 [of _ "clients s"]
  by (auto simp: ids_fresh_def removeClient_def list_all_iff map_splice1 distinct_splice1
      split: option.splits)

lemma removeClient_gone:
  assumes "ids_fresh s"
  shows "client_id c \<notin> client_id ` set (clients (removeClient c s))"
proof (cases "findIndex (\<lambda>x. client_id x = client_id c) (clients s)")
  case None
  then have "client_id c \<notin> client_id ` set (clients s)"
    by (simp add: findIndex_None list_ex_iff_id)
  with None show ?thesis
    by (simp add: removeClient_def)
next
  case (Some i)
  have d: "distinct (map client_id (clients s))" using assms by (simp add: ids_fresh_def)
  have "client_id (clients s ! i) = client_id c" using findIndex_hit [OF Some] .
  with splice1_removes [OF d findIndex_Some_lt [OF Some]] Some show ?thesis
    by (simp add: removeClient_def)
qed

lemma removeClient_absent:
  "client_id c \<notin> client_id ` set (clients s) \<Longrightarrow> removeClient c s = s"
proof -
  assume "client_id c \<notin> client_id ` set (clients s)"
  then have "findIndex (\<lambda>x. client_id x = client_id c) (clients s) = None"
    by (simp add: findIndex_None list_ex_iff_id)
  then show ?thesis by (simp add: removeClient_def)
qed

lemma removeClient_idem: "ids_fresh s \<Longrightarrow> removeClient c (removeClient c s) = removeClient c s"
  by (rule removeClient_absent) (rule removeClient_gone)

lemma ids_fresh_cong:
  "map client_id (clients s') = map client_id (clients s) \<Longrightarrow> nextClientId s' = nextClientId s
   \<Longrightarrow> ids_fresh s \<Longrightarrow> ids_fresh s'"
proof -
  assume m: "map client_id (clients s') = map client_id (clients s)"
    and n: "nextClientId s' = nextClientId s" and f: "ids_fresh s"
  have "list_all (\<lambda>c. client_id c < nextClientId s) (clients s)
        \<longleftrightarrow> list_all (\<lambda>i. i < nextClientId s) (map client_id (clients s))"
    by (simp add: list_all_iff)
  moreover have "list_all (\<lambda>c. client_id c < nextClientId s') (clients s')
        \<longleftrightarrow> list_all (\<lambda>i. i < nextClientId s') (map client_id (clients s'))"
    by (simp add: list_all_iff)
  ultimately show ?thesis using m n f by (simp add: ids_fresh_def)
qed

lemma register_client_fresh:
  "ids_fresh s \<Longrightarrow> ids_fresh (snd (register_client seller now s))"
  by (auto simp: ids_fresh_def register_client_def setupHeartbeat_def Let_def list_all_iff)

lemma removeClient_timers_ok:
  assumes f: "ids_fresh s" and t: "timers_ok s"
  shows "timers_ok (removeClient c s)"
proof (cases "findIndex (\<lambda>x. client_id x = client_id c) (clients s)")
  case None
  with t show ?thesis by (simp add: removeClient_def)
next
  case (Some i)
  have d: "distinct (map client_id (clients s))" using f by (simp add: ids_fresh_def)
  have i: "i < length (map client_id (clients s))" using findIndex_Some_lt [OF Some] by simp
  have h: "client_id (clients s ! i) = client_id c" using findIndex_hit [OF Some] .
  have "set (map client_id (splice1 i (clients s))) = set (map client_id (clients s)) - {client_id c}"
    using set_splice1_distinct [OF d i] i h by (simp add: map_splice1)
  moreover have "set (clearInterval (client_id c) (timers s)) = set (timers s) - {client_id c}"
    by (auto simp: clearInterval_def)
  ultimately show ?thesis using t Some by (simp add: removeClient_def timers_ok_def)
qed

lemma timers_ok_cong:
  "map client_id (clients s') = map client_id (clients s) \<Longrightarrow> timers s' = timers s
   \<Longrightarrow> timers_ok s \<Longrightarrow> timers_ok s'"
  by (simp add: timers_ok_def)

lemma register_client_timers_ok:
  "timers_ok s \<Longrightarrow> timers_ok (snd (register_client seller now s))"
  by (auto simp: timers_ok_def register_client_def setupHeartbeat_def Let_def clearInterval_def)

lemma removeClient_registry_ok: "registry_ok s \<Longrightarrow> registry_ok (removeClient c s)"
  by (simp add: registry_ok_def removeClient_ids_fresh removeClient_timers_ok)

lemma fold_removeClient_registry_ok: "registry_ok s \<Longrightarrow> registry_ok (fold removeClient ds s)"
  by (induction ds arbitrary: s) (simp_all add: removeClient_registry_ok)

lemma registry_ok_cong:
  "map client_id (clients s') = map client_id (clients s) \<Longrightarrow> nextClientId s' = nextClientId s
   \<Longrightarrow> timers s' = timers s \<Longrightarrow> registry_ok s \<Longrightarrow> registry_ok s'"
  using ids_fresh_cong timers_ok_cong by (simp add: registry_ok_def)

lemma openStream_registry_ok: "registry_ok s \<Longrightarrow> registry_ok (openStream hdr qry now ok s)"
proof -
  assume w: "registry_ok s"
  obtain c s1 where r: "register_client (resolve_seller hdr qry) now s = (c, s1)"
    by (cases "register_client (resolve_seller hdr qry) now s")
  have w1: "registry_ok s1"
    using w register_client_fresh [of s "resolve_seller hdr qry" now]
      register_client_timers_ok [of s "resolve_seller hdr qry" now] r
    by (simp add: registry_ok_def)
  show ?thesis
  proof (cases ok)
    case True
    have "registry_ok (touch (client_id c) now
             (res_write (client_id c) (connected_frame (resolve_seller hdr qry) now) s1))"
      by (rule registry_ok_cong [OF _ _ _ w1]) simp_all
    with True r show ?thesis by (simp add: openStream_def)
  next
    case False
    with r removeClient_registry_ok [OF w1] show ?thesis by (simp add: openStream_def)
  qed
qed

lemma heartbeat_tick_registry_ok: "registry_ok s \<Longrightarrow> registry_ok (heartbeat_tick cid now ok s)"
proof -
  assume w: "registry_ok s"
  have "registry_ok (touch cid now (res_write cid (ping_frame now) s))"
    by (rule registry_ok_cong [OF _ _ _ w]) simp_all
  with w removeClient_registry_ok [OF w] show ?thesis
    by (simp add: heartbeat_tick_def split: option.splits)
qed

lemma notification_handler_registry_ok: "registry_ok s \<Longrightarrow> registry_ok (notification_handler msg now wr s)"
proof -
  assume w: "registry_ok s"
  have "registry_ok (fst (fold (send_to p now wr) cs (s, [])))" for p cs
    by (rule registry_ok_cong [OF _ _ _ w]) (simp_all add: fold_send_to_shape fold_send_to_timers)
  with w show ?thesis
    by (simp add: notification_handler_def Let_def fold_removeClient_registry_ok split: option.splits)
qed

lemma registry_ok_init: "registry_ok sse_init"
  by (simp add: registry_ok_def ids_fresh_def timers_ok_def sse_init_def)

lemma reachable_registry_ok: "reachable s \<Longrightarrow> registry_ok s"
  by (induction rule: reachable.induct)
     (simp_all add: registry_ok_init openStream_registry_ok heartbeat_tick_registry_ok notification_handler_registry_ok removeClient_registry_ok)

lemma register_client_shape:
  "register_client seller now s = (c, s1) \<Longrightarrow>
   c = \<lparr>client_id = nextClientId s, sellerId = seller, lastActivity = now\<rparr>
   \<and> clients s1 = clients s @ [c]"
  by (auto simp: register_client_def setupHeartbeat_def Let_def)

lemma fresh_id_absent: "ids_fresh s \<Longrightarrow> nextClientId s \<notin> client_id ` set (clients s)"
  by (auto simp: ids_fresh_def list_all_iff)

lemma remove_registered:
  assumes f: "ids_fresh s" and r: "register_client seller now s = (c, s1)"
  shows "clients (removeClient c s1) = clients s"
proof -
  have c: "client_id c = nextClientId s" and cl: "clients s1 = clients s @ [c]"
    using register_client_shape [OF r] by simp_all
  have "\<not> list_ex (\<lambda>x. client_id x = client_id c) (clients s)"
    using fresh_id_absent [OF f] c by (simp add: list_ex_iff_id)
  then have "findIndex (\<lambda>x. client_id x = client_id c) (clients s1) = Some (length (clients s))"
    unfolding cl by (rule findIndex_append_fresh) simp
  then show ?thesis by (simp add: removeClient_def cl splice1_last)
qed

lemma other_seller_not_target:
  assumes d: "distinct (map client_id cs)" and c: "c \<in> set cs" and ne: "\<not> P c"
  shows "client_id c \<notin> client_id ` set (filter P cs)"
proof
  assume "client_id c \<in> client_id ` set (filter P cs)"
  then obtain x where x: "x \<in> set cs" "P x" "client_id x = client_id c" by auto
  with d c have "x = c" by (meson distinct_map inj_onD)
  with x ne show False by simp
qed

lemmas sse_defs = sse_init_def openStream_def register_client_def setupHeartbeat_def
  resolve_seller_def removeClient_def splice1_def clearInterval_def res_write_def touch_def
  connected_frame_def ping_frame_def heartbeat_tick_def CLIENT_TIMEOUT_def
  notification_handler_def send_to_def format_message_def js_or_def Let_def

section \<open>Claims about the registry and the dispatcher\<close>

text \<open>
  Claim C4 (partition isolation). In every reachable state, a notification whose
  \<open>seller_id\<close> is \<open>B\<close> writes nothing to the transport of a subscription registered
  for another seller: the transport of that subscription is the same after the handler
  has run, whatever the outcome of the writes to other clients.
\<close>

theorem partition_isolation:
  assumes "reachable s" and "c \<in> set (clients s)"
    and "getprop payload ''seller_id'' = Some (JStr B)" and "sellerId c \<noteq> B"
  shows "sockets (notification_handler (Some payload) now wr s) (client_id c)
         = sockets s (client_id c)"
proof -
  have d: "distinct (map client_id (clients s))"
    using reachable_registry_ok [OF assms(1)] by (simp add: registry_ok_def ids_fresh_def)
  have "client_id c \<notin> client_id ` set (filter (\<lambda>x. JStr (sellerId x) = JStr B) (clients s))"
    by (rule other_seller_not_target [OF d assms(2)]) (simp add: assms(4))
  then have "sockets (fst (fold (send_to payload now wr)
                 (filter (\<lambda>x. JStr (sellerId x) = JStr B) (clients s)) (s, []))) (client_id c)
             = sockets s (client_id c)"
    using fold_send_to_other [of "client_id c" _ payload now wr "(s, [])"] by simp
  then show ?thesis
    using assms(3) by (simp add: notification_handler_def Let_def)
qed

theorem partition_isolation_witness:
  "reachable (openStream (Some ''B'') None 1 True (openStream (Some ''A'') None 0 True sse_init))
   \<and> written (sockets (notification_handler
          (Some (JObj [(''type'', JStr ''ProductCreated''), (''seller_id'', JStr ''B'')]))
          2 (\<lambda>k. True)
          (openStream (Some ''B'') None 1 True (openStream (Some ''A'') None 0 True sse_init))) 1)
       = [connected_frame ''A'' 0]"
proof -
  let ?S = "openStream (Some ''B'') None 1 True (openStream (Some ''A'') None 0 True sse_init)"
  let ?c = "\<lparr>client_id = 1, sellerId = ''A'', lastActivity = 0\<rparr>"
  let ?P = "JObj [(''type'', JStr ''ProductCreated''), (''seller_id'', JStr ''B'')]"
  have r: "reachable ?S" by (rule r_open [OF r_open [OF r_init]])
  have c: "?c \<in> set (clients ?S)" by (simp add: sse_defs)
  have p: "getprop ?P ''seller_id'' = Some (JStr ''B'')" by simp
  have n: "sellerId ?c \<noteq> ''B''" by simp
  have w: "written (sockets ?S 1) = [connected_frame ''A'' 0]" by (simp add: sse_defs)
  show ?thesis
    using partition_isolation [OF r c p n, of 2 "\<lambda>k. True"] r w by simp
qed

text \<open>
  Claim C7 (idempotent unregister). Registering a subscription in a reachable state and
  then calling \<open>removeClient\<close> on it twice leaves the registry as long as it was before
  the registration, and the second call changes nothing.
\<close>

theorem unregister_twice:
  assumes "reachable s" and "register_client seller now s = (c, s1)"
  shows "length (clients (removeClient c (removeClient c s1))) = length (clients s)
         \<and> removeClient c (removeClient c s1) = removeClient c s1"
proof -
  have f: "ids_fresh s" using reachable_registry_ok [OF assms(1)] by (simp add: registry_ok_def)
  have f1: "ids_fresh s1" using register_client_fresh [OF f, of seller now] assms(2) by simp
  have "removeClient c (removeClient c s1) = removeClient c s1"
    using f1 by (rule removeClient_idem)
  then show ?thesis using remove_registered [OF f assms(2)] by simp
qed

theorem unregister_twice_witness:
  "reachable (openStream (Some ''s2'') None 0 True sse_init)
   \<and> length (clients (removeClient
         (fst (register_client ''s1'' 5 (openStream (Some ''s2'') None 0 True sse_init)))
         (removeClient
            (fst (register_client ''s1'' 5 (openStream (Some ''s2'') None 0 True sse_init)))
            (snd (register_client ''s1'' 5 (openStream (Some ''s2'') None 0 True sse_init))))))
       = 1"
proof -
  have r: "reachable (openStream (Some ''s2'') None 0 True sse_init)"
    by (rule r_open [OF r_init])
  have l: "length (clients (openStream (Some ''s2'') None 0 True sse_init)) = 1"
    by (simp add: sse_defs)
  show ?thesis
    using unregister_twice [OF r prod.collapse [symmetric], of "''s1''" 5, THEN conjunct1] r l
    by simp
qed

section \<open>Properties of delivery and of the trigger\<close>

lemma map_if_absent:
  "k \<notin> f ` set xs \<Longrightarrow> map (\<lambda>x. if f x = k then g x else x) xs = xs"
  by (induction xs) auto

lemma openStream_registers:
  assumes f: "ids_fresh s"
  shows "clients (openStream hdr qry now True s)
         = clients s @ [\<lparr>client_id = nextClientId s, sellerId = resolve_seller hdr qry,
                          lastActivity = now\<rparr>]"
proof -
  let ?c = "\<lparr>client_id = nextClientId s, sellerId = resolve_seller hdr qry, lastActivity = now\<rparr>"
  have a: "nextClientId s \<notin> client_id ` set (clients s)" using f by (rule fresh_id_absent)
  have "map (\<lambda>x. if client_id x = nextClientId s then x\<lparr>lastActivity := now\<rparr> else x) (clients s)
        = clients s"
    using a by (rule map_if_absent)
  then show ?thesis
    by (simp add: openStream_def register_client_def setupHeartbeat_def Let_def touch_def
        res_write_def)
qed

lemma delivered:
  assumes "reachable s" and "c \<in> set (clients s)"
    and "getprop payload ''seller_id'' = Some (JStr (sellerId c))"
    and "format_message payload t = Some f" and "wr (client_id c)"
  shows "written (sockets (notification_handler (Some payload) t wr s) (client_id c))
         = written (sockets s (client_id c)) @ [f]"
proof -
  let ?T = "filter (\<lambda>x. JStr (sellerId x) = JStr (sellerId c)) (clients s)"
  have d: "distinct (map client_id (clients s))"
    using reachable_registry_ok [OF assms(1)] by (simp add: registry_ok_def ids_fresh_def)
  have dT: "distinct (map client_id ?T)" using d by (rule distinct_map_filter)
  have "c \<in> set ?T" using assms(2) by simp
  then have "client_id c \<in> client_id ` set ?T" by (rule imageI)
  with fold_send_to_hit [where wr = wr and k = "client_id c" and acc = "(s, [])",
      OF assms(4) assms(5) dT]
  have "sockets (fst (fold (send_to payload t wr) ?T (s, []))) (client_id c)
        = (sockets s (client_id c))\<lparr>written := written (sockets s (client_id c)) @ [f]\<rparr>"
    by simp
  then show ?thesis using assms(3) by (simp add: notification_handler_def Let_def)
qed

lemma not_delivered:
  assumes "reachable s" and "c \<in> set (clients s)"
    and "getprop payload ''seller_id'' = Some (JStr B)" and "sellerId c \<noteq> B"
  shows "sockets (notification_handler (Some payload) now wr s) (client_id c)
         = sockets s (client_id c)"
proof -
  have d: "distinct (map client_id (clients s))"
    using reachable_registry_ok [OF assms(1)] by (simp add: registry_ok_def ids_fresh_def)
  have "client_id c \<notin> client_id ` set (filter (\<lambda>x. JStr (sellerId x) = JStr B) (clients s))"
    by (rule other_seller_not_target [OF d assms(2)]) (simp add: assms(4))
  then have "sockets (fst (fold (send_to payload now wr)
                 (filter (\<lambda>x. JStr (sellerId x) = JStr B) (clients s)) (s, []))) (client_id c)
             = sockets s (client_id c)"
    using fold_send_to_other [of "client_id c" _ payload now wr "(s, [])"] by simp
  then show ?thesis
    using assms(3) by (simp add: notification_handler_def Let_def)
qed

lemma format_other:
  "ev_type e \<noteq> ''LowStockWarning'' \<Longrightarrow>
   format_message (row_to_json e) t
   = Some \<lparr>fr_event = Some (JStr (ev_type e)), fr_data = row_to_json e\<rparr>"
  by (simp add: format_message_def row_to_json_def)

lemma format_low_stock:
  "format_message (row_to_json (new_event now ''LowStockWarning'' seller (Some (p_id p))
       (low_stock_payload threshold p) d)) t
   = Some \<lparr>fr_event = Some (JStr ''LowStockWarning''),
           fr_data = JObj [(''type'', JStr ''LowStockWarning''), (''timestamp'', JTime t),
             (''product'', JObj [(''id'', JNum (p_id p)), (''name'', JStr (p_name p)),
                (''price'', JNum (p_price p)), (''quantity'', JNum (p_quantity p)),
                (''category'', JStr (if p_category p = [] then ''N/A'' else p_category p))])]\<rparr>"
  by (simp add: format_message_def row_to_json_def new_event_def low_stock_payload_def js_or_def)

lemma seller_of_row [simp]:
  "getprop (row_to_json e) ''seller_id'' = Some (JStr (ev_seller_id e))"
  by (simp add: row_to_json_def)

lemma latest_None: "latest es = None \<longleftrightarrow> es = []"
  by (induction es) (auto split: option.splits)

lemma notify_event_events [simp]: "events (notify_event now NEW d) = events d"
  by (simp add: notify_event_def split: option.splits)

lemma notify_event_products [simp]: "products (notify_event now NEW d) = products d"
  by (simp add: notify_event_def split: option.splits)

lemma notify_event_channel:
  "events_channel (notify_event now NEW d)
   = (if similar_events now NEW (events d) = [] then events_channel d @ [row_to_json NEW]
      else events_channel d)"
  by (cases "latest (similar_events now NEW (events d))")
     (auto simp: notify_event_def latest_None)

lemma insert_event_events [simp]:
  "events (insert_event now ty seller pid payload d)
   = events d @ [new_event now ty seller pid payload d]"
  by (simp add: insert_event_def Let_def)

lemma insert_event_products [simp]:
  "products (insert_event now ty seller pid payload d) = products d"
  by (simp add: insert_event_def Let_def)

lemma insert_event_seq [simp]:
  "events_id_seq (insert_event now ty seller pid payload d) = events_id_seq d + 1"
  by (simp add: insert_event_def Let_def notify_event_def split: option.splits)

lemma similar_events_self:
  "similar_events now NEW (rows @ [NEW]) = similar_events now NEW rows"
  by (simp add: similar_events_def)

lemma insert_event_channel:
  "events_channel (insert_event now ty seller pid payload d)
   = (if similar_events now (new_event now ty seller pid payload d) (events d) = []
      then events_channel d @ [row_to_json (new_event now ty seller pid payload d)]
      else events_channel d)"
  by (simp add: insert_event_def Let_def notify_event_channel similar_events_self)

lemma sql_eq_None [simp]: "sql_eq x None = False"
  by (cases x) simp_all

lemma similar_events_null:
  "ev_product_id NEW = None \<Longrightarrow> similar_events now NEW rows = []"
  by (simp add: similar_events_def)

lemma low_stock_row:
  "p_quantity p \<le> threshold \<Longrightarrow>
   last (events (snd (checkAndEmitLowStockWarning threshold True sel_ok now p seller d)))
   = new_event now ''LowStockWarning'' seller (Some (p_id p)) (low_stock_payload threshold p) d"
  by (simp add: checkAndEmitLowStockWarning_def Let_def)

lemmas db_defs = db_init_def insert_event_def new_event_def notify_event_def similar_events_def
  five_seconds_def row_to_json_def emitEvent_def product_json_def low_stock_payload_def
  checkAndEmitLowStockWarning_def created_row_def create_product_def update_product_def
  no_fields_def apply_update_def owned_def delete_tx_def delete_product_def Let_def

section \<open>Claims about delivery and duplicate suppression\<close>

text \<open>
  Claim C10 (default seller). A stream opened with neither the \<open>x-seller-id\<close> header
  nor the \<open>seller_id\<close> query parameter is not refused: its client enters the registry
  under \<open>demo-seller\<close>. In any later state, a client registered under \<open>demo-seller\<close>
  is written a notification exactly when the \<open>seller_id\<close> of the notification is
  \<open>demo-seller\<close> (for a notification that can be formatted and a write that succeeds).
\<close>

theorem default_seller:
  assumes "reachable s"
    and "reachable s'" and "c \<in> set (clients s')" and "sellerId c = ''demo-seller''"
    and "getprop payload ''seller_id'' = Some (JStr B)"
    and "format_message payload t = Some f"
    and "wr (client_id c)"
  shows "clients (openStream None None now True s)
           = clients s @ [\<lparr>client_id = nextClientId s, sellerId = ''demo-seller'',
                            lastActivity = now\<rparr>]
         \<and> written (sockets (notification_handler (Some payload) t wr s') (client_id c))
           = (if B = ''demo-seller'' then written (sockets s' (client_id c)) @ [f]
              else written (sockets s' (client_id c)))"
proof -
  have f: "ids_fresh s" using reachable_registry_ok [OF assms(1)] by (simp add: registry_ok_def)
  have cl: "clients (openStream None None now True s)
            = clients s @ [\<lparr>client_id = nextClientId s, sellerId = ''demo-seller'',
                             lastActivity = now\<rparr>]"
    using openStream_registers [OF f, of None None now] by (simp add: resolve_seller_def)
  have "written (sockets (notification_handler (Some payload) t wr s') (client_id c))
        = (if B = ''demo-seller'' then written (sockets s' (client_id c)) @ [f]
           else written (sockets s' (client_id c)))"
  proof (cases "B = ''demo-seller''")
    case True
    then have g: "getprop payload ''seller_id'' = Some (JStr (sellerId c))"
      using assms(4,5) by simp
    show ?thesis
      using delivered [where wr = wr and c = c, OF assms(2) assms(3) g assms(6) assms(7)] True
      by simp
  next
    case False
    then have n: "sellerId c \<noteq> B" using assms(4) by simp
    show ?thesis
      using not_delivered [OF assms(2) assms(3) assms(5) n, of t wr] False by simp
  qed
  with cl show ?thesis by simp
qed

theorem default_seller_witness:
  "reachable sse_init
   \<and> reachable (heartbeat_tick 1 15000 True (openStream None None 0 True sse_init))
   \<and> clients (openStream None None 0 True sse_init)
     = [\<lparr>client_id = 1, sellerId = ''demo-seller'', lastActivity = 0\<rparr>]
   \<and> length (written (sockets (notification_handler
        (Some (row_to_json (new_event 10 ''ProductCreated'' ''demo-seller'' (Some 7) JNull db_init)))
        20000 (\<lambda>k. True)
        (heartbeat_tick 1 15000 True (openStream None None 0 True sse_init))) 1)) = 3
   \<and> length (written (sockets (notification_handler
        (Some (row_to_json (new_event 10 ''ProductCreated'' ''s1'' (Some 7) JNull db_init)))
        20000 (\<lambda>k. True)
        (heartbeat_tick 1 15000 True (openStream None None 0 True sse_init))) 1)) = 2"
proof -
  let ?S = "heartbeat_tick 1 15000 True (openStream None None 0 True sse_init)"
  let ?c = "\<lparr>client_id = 1, sellerId = ''demo-seller'', lastActivity = 15000\<rparr>"
  let ?e = "new_event 10 ''ProductCreated'' ''demo-seller'' (Some 7) JNull db_init"
  let ?e' = "new_event 10 ''ProductCreated'' ''s1'' (Some 7) JNull db_init"
  have r: "reachable ?S" by (rule r_tick [OF r_open [OF r_init]])
  have c: "?c \<in> set (clients ?S)" by (simp add: sse_defs)
  have d: "sellerId ?c = ''demo-seller''" by simp
  have w: "(\<lambda>k. True) (client_id ?c)" by simp
  have g: "getprop (row_to_json ?e) ''seller_id'' = Some (JStr ''demo-seller'')"
    by (simp add: new_event_def)
  have g': "getprop (row_to_json ?e') ''seller_id'' = Some (JStr ''s1'')"
    by (simp add: new_event_def)
  have f: "format_message (row_to_json ?e) 20000
           = Some \<lparr>fr_event = Some (JStr (ev_type ?e)), fr_data = row_to_json ?e\<rparr>"
    by (rule format_other) (simp add: new_event_def)
  have f': "format_message (row_to_json ?e') 20000
           = Some \<lparr>fr_event = Some (JStr (ev_type ?e')), fr_data = row_to_json ?e'\<rparr>"
    by (rule format_other) (simp add: new_event_def)
  have s: "length (written (sockets ?S 1)) = 2" by (simp add: sse_defs)
  have i: "clients sse_init = []" "nextClientId sse_init = 1" by (simp_all add: sse_init_def)
  note t = default_seller [where wr = "\<lambda>k. True" and now = 0, OF r_init r c d g f w]
  note t' = default_seller [where wr = "\<lambda>k. True" and now = 0, OF r_init r c d g' f' w]
  from t have "clients (openStream None None 0 True sse_init)
     = [\<lparr>client_id = 1, sellerId = ''demo-seller'', lastActivity = 0\<rparr>]" by (simp add: i)
  moreover from t have "length (written (sockets (notification_handler (Some (row_to_json ?e))
        20000 (\<lambda>k. True) ?S) 1)) = 3" by (simp add: s)
  moreover from t' have "length (written (sockets (notification_handler (Some (row_to_json ?e'))
        20000 (\<lambda>k. True) ?S) 1)) = 2" by (simp add: s)
  ultimately show ?thesis using r r_init by simp
qed

text \<open>
  Claim C8 (frames). A subscriber of the seller receives, for the row that
  \<open>checkAndEmitLowStockWarning\<close> stores, the reshaped document with the nested product
  whose quantity is the quantity of the product at emission; for a row of any other type
  it receives the notification unchanged, stored payload included.
\<close>

theorem low_stock_frame:
  assumes "reachable s" and "c \<in> set (clients s)" and "wr (client_id c)"
  shows "(p_quantity p \<le> threshold \<and> sellerId c = seller \<longrightarrow>
           written (sockets (notification_handler
              (Some (row_to_json (last (events (snd
                 (checkAndEmitLowStockWarning threshold True sel_ok now p seller d))))))
              t wr s) (client_id c))
           = written (sockets s (client_id c)) @
             [\<lparr>fr_event = Some (JStr ''LowStockWarning''),
               fr_data = JObj [(''type'', JStr ''LowStockWarning''), (''timestamp'', JTime t),
                 (''product'', JObj [(''id'', JNum (p_id p)), (''name'', JStr (p_name p)),
                    (''price'', JNum (p_price p)), (''quantity'', JNum (p_quantity p)),
                    (''category'', JStr (if p_category p = [] then ''N/A'' else p_category p))])]\<rparr>])
         \<and> (ev_type e \<noteq> ''LowStockWarning'' \<and> sellerId c = ev_seller_id e \<longrightarrow>
           written (sockets (notification_handler (Some (row_to_json e)) t wr s) (client_id c))
           = written (sockets s (client_id c)) @
             [\<lparr>fr_event = Some (JStr (ev_type e)), fr_data = row_to_json e\<rparr>])"
proof (intro conjI impI)
  let ?NEW = "new_event now ''LowStockWarning'' seller (Some (p_id p))
                (low_stock_payload threshold p) d"
  assume a: "p_quantity p \<le> threshold \<and> sellerId c = seller"
  then have l: "last (events (snd (checkAndEmitLowStockWarning threshold True sel_ok now p seller d)))
                = ?NEW"
    by (simp add: low_stock_row)
  have g: "getprop (row_to_json ?NEW) ''seller_id'' = Some (JStr (sellerId c))"
    using a by (simp add: new_event_def)
  show "written (sockets (notification_handler
              (Some (row_to_json (last (events (snd
                 (checkAndEmitLowStockWarning threshold True sel_ok now p seller d))))))
              t wr s) (client_id c))
           = written (sockets s (client_id c)) @
             [\<lparr>fr_event = Some (JStr ''LowStockWarning''),
               fr_data = JObj [(''type'', JStr ''LowStockWarning''), (''timestamp'', JTime t),
                 (''product'', JObj [(''id'', JNum (p_id p)), (''name'', JStr (p_name p)),
                    (''price'', JNum (p_price p)), (''quantity'', JNum (p_quantity p)),
                    (''category'', JStr (if p_category p = [] then ''N/A'' else p_category p))])]\<rparr>]"
    unfolding l
    by (rule delivered [where wr = wr and c = c, OF assms(1) assms(2) g format_low_stock assms(3)])
next
  assume b: "ev_type e \<noteq> ''LowStockWarning'' \<and> sellerId c = ev_seller_id e"
  then have g: "getprop (row_to_json e) ''seller_id'' = Some (JStr (sellerId c))" by simp
  from b have f: "format_message (row_to_json e) t
                  = Some \<lparr>fr_event = Some (JStr (ev_type e)), fr_data = row_to_json e\<rparr>"
    by (simp add: format_other)
  show "written (sockets (notification_handler (Some (row_to_json e)) t wr s) (client_id c))
        = written (sockets s (client_id c)) @
          [\<lparr>fr_event = Some (JStr (ev_type e)), fr_data = row_to_json e\<rparr>]"
    by (rule delivered [where wr = wr and c = c, OF assms(1) assms(2) g f assms(3)])
qed

theorem low_stock_frame_witness:
  "reachable (openStream (Some ''s1'') None 0 True sse_init)
   \<and> written (sockets (notification_handler
        (Some (row_to_json (last (events (snd
           (checkAndEmitLowStockWarning 5 True True 10 mug ''s1'' db_init))))))
        20 (\<lambda>k. True) (openStream (Some ''s1'') None 0 True sse_init)) 1)
     = [connected_frame ''s1'' 0,
        \<lparr>fr_event = Some (JStr ''LowStockWarning''),
         fr_data = JObj [(''type'', JStr ''LowStockWarning''), (''timestamp'', JTime 20),
           (''product'', JObj [(''id'', JNum 7), (''name'', JStr ''Mug''),
              (''price'', JNum 1250), (''quantity'', JNum 3),
              (''category'', JStr ''Kitchen'')])]\<rparr>]
   \<and> written (sockets (notification_handler
        (Some (row_to_json (new_event 10 ''ProductDeleted'' ''s1'' (Some 7)
           (JObj [(''productId'', JNum 7)]) db_init)))
        20 (\<lambda>k. True) (openStream (Some ''s1'') None 0 True sse_init)) 1)
     = [connected_frame ''s1'' 0,
        \<lparr>fr_event = Some (JStr ''ProductDeleted''),
         fr_data = row_to_json (new_event 10 ''ProductDeleted'' ''s1'' (Some 7)
           (JObj [(''productId'', JNum 7)]) db_init)\<rparr>]"
proof -
  let ?S = "openStream (Some ''s1'') None 0 True sse_init"
  let ?c = "\<lparr>client_id = 1, sellerId = ''s1'', lastActivity = 0\<rparr>"
  let ?e = "new_event 10 ''ProductDeleted'' ''s1'' (Some 7) (JObj [(''productId'', JNum 7)]) db_init"
  have r: "reachable ?S" by (rule r_open [OF r_init])
  have c: "?c \<in> set (clients ?S)" by (simp add: sse_defs)
  have w: "(\<lambda>k. True) (client_id ?c)" by simp
  have a: "p_quantity mug \<le> 5 \<and> sellerId ?c = ''s1''" by (simp add: mug_def)
  have b: "ev_type ?e \<noteq> ''LowStockWarning'' \<and> sellerId ?c = ev_seller_id ?e"
    by (simp add: new_event_def)
  have s: "written (sockets ?S 1) = [connected_frame ''s1'' 0]" by (simp add: sse_defs)
  have m: "p_id mug = 7" "p_name mug = ''Mug''" "p_price mug = 1250" "p_quantity mug = 3"
    "p_category mug = ''Kitchen''" by (simp_all add: mug_def)
  note t = low_stock_frame [where wr = "\<lambda>k. True" and c = ?c and p = mug and threshold = 5
      and seller = "''s1''" and sel_ok = True and now = 10 and d = db_init and t = 20 and e = ?e,
      OF r c w]
  from t a have "written (sockets (notification_handler
        (Some (row_to_json (last (events (snd
           (checkAndEmitLowStockWarning 5 True True 10 mug ''s1'' db_init))))))
        20 (\<lambda>k. True) ?S) 1)
     = [connected_frame ''s1'' 0,
        \<lparr>fr_event = Some (JStr ''LowStockWarning''),
         fr_data = JObj [(''type'', JStr ''LowStockWarning''), (''timestamp'', JTime 20),
           (''product'', JObj [(''id'', JNum 7), (''name'', JStr ''Mug''),
              (''price'', JNum 1250), (''quantity'', JNum 3),
              (''category'', JStr ''Kitchen'')])]\<rparr>]"
    by (simp add: s m)
  moreover from t b have "written (sockets (notification_handler (Some (row_to_json ?e))
        20 (\<lambda>k. True) ?S) 1)
     = [connected_frame ''s1'' 0,
        \<lparr>fr_event = Some (JStr ''ProductDeleted''), fr_data = row_to_json ?e\<rparr>]"
    by (simp add: s new_event_def)
  ultimately show ?thesis using r by simp
qed

text \<open>
  Claim C9 (null product id). An event inserted with a null \<open>product_id\<close> is always
  published: the comparison \<open>product_id = NEW.product_id\<close> selects no row.
\<close>

theorem null_product_always_published:
  "events_channel (insert_event now ty seller None payload d)
   = events_channel d @ [row_to_json (new_event now ty seller None payload d)]"
  by (simp add: insert_event_channel similar_events_null new_event_def)

theorem null_product_always_published_witness:
  "length (events_channel (insert_event 1000 ''ProductDeleted'' ''s1'' None JNull
             (insert_event 0 ''ProductDeleted'' ''s1'' None JNull db_init))) = 2"
  using null_product_always_published [of 1000 "''ProductDeleted''" "''s1''" JNull
      "insert_event 0 ''ProductDeleted'' ''s1'' None JNull db_init"]
    null_product_always_published [of 0 "''ProductDeleted''" "''s1''" JNull db_init]
  by (simp add: db_init_def)

text \<open>
  Claim C2 (dedup window), as the code has it. Of two events of the same type and the same
  non-null product inserted less than five seconds apart, the second is not published and
  both rows are stored; the first is published exactly when the table holds no other row
  of that type and product from the five seconds before it.
\<close>

theorem dedup_window:
  assumes "t2 < t1 + five_seconds"
  shows "events_channel (insert_event t2 ty s2 (Some pid) pl2
             (insert_event t1 ty s1 (Some pid) pl1 d))
           = events_channel (insert_event t1 ty s1 (Some pid) pl1 d)
         \<and> events (insert_event t2 ty s2 (Some pid) pl2 (insert_event t1 ty s1 (Some pid) pl1 d))
           = events d @ [new_event t1 ty s1 (Some pid) pl1 d,
                         new_event t2 ty s2 (Some pid) pl2 (insert_event t1 ty s1 (Some pid) pl1 d)]
         \<and> events_channel (insert_event t1 ty s1 (Some pid) pl1 d)
           = (if similar_events t1 (new_event t1 ty s1 (Some pid) pl1 d) (events d) = []
              then events_channel d @ [row_to_json (new_event t1 ty s1 (Some pid) pl1 d)]
              else events_channel d)"
proof -
  let ?d1 = "insert_event t1 ty s1 (Some pid) pl1 d"
  let ?e1 = "new_event t1 ty s1 (Some pid) pl1 d"
  let ?e2 = "new_event t2 ty s2 (Some pid) pl2 ?d1"
  have "?e1 \<in> set (similar_events t2 ?e2 (events ?d1))"
    using assms by (simp add: similar_events_def new_event_def)
  then have "similar_events t2 ?e2 (events ?d1) \<noteq> []" by auto
  then have "events_channel (insert_event t2 ty s2 (Some pid) pl2 ?d1) = events_channel ?d1"
    by (simp only: insert_event_channel if_False)
  moreover have "events_channel ?d1
           = (if similar_events t1 ?e1 (events d) = []
              then events_channel d @ [row_to_json ?e1] else events_channel d)"
    by (rule insert_event_channel)
  ultimately show ?thesis by simp
qed

theorem dedup_window_witness:
  "(2000::int) < 0 + five_seconds
   \<and> length (events_channel (insert_event 2000 ''LowStockWarning'' ''s1'' (Some 7) JNull
        (insert_event 0 ''LowStockWarning'' ''s1'' (Some 7) JNull db_init))) = 1
   \<and> length (events (insert_event 2000 ''LowStockWarning'' ''s1'' (Some 7) JNull
        (insert_event 0 ''LowStockWarning'' ''s1'' (Some 7) JNull db_init))) = 2"
proof -
  have h: "(2000::int) < 0 + five_seconds" by (simp add: five_seconds_def)
  have e: "similar_events 0 (new_event 0 ''LowStockWarning'' ''s1'' (Some 7) JNull db_init)
             (events db_init) = []"
    by (simp add: similar_events_def db_init_def)
  show ?thesis
    using dedup_window [OF h, of "''LowStockWarning''" "''s1''" 7 JNull "''s1''" JNull db_init] h e
    by (simp add: db_init_def)
qed

text \<open>
  The claim as the specification states it promises one notification for every such
  pair. Of the three rows below, four seconds apart each, the second and the third are
  such a pair, and neither of them is published.
\<close>

theorem dedup_pair_counterexample:
  "events_channel (insert_event 8000 ''LowStockWarning'' ''s1'' (Some 7) JNull
      (insert_event 4000 ''LowStockWarning'' ''s1'' (Some 7) JNull
         (insert_event 0 ''LowStockWarning'' ''s1'' (Some 7) JNull db_init)))
   = events_channel (insert_event 0 ''LowStockWarning'' ''s1'' (Some 7) JNull db_init)
   \<and> length (events (insert_event 8000 ''LowStockWarning'' ''s1'' (Some 7) JNull
      (insert_event 4000 ''LowStockWarning'' ''s1'' (Some 7) JNull
         (insert_event 0 ''LowStockWarning'' ''s1'' (Some 7) JNull db_init))))
     = length (events (insert_event 0 ''LowStockWarning'' ''s1'' (Some 7) JNull db_init)) + 2"
  by (simp add: db_defs)

section \<open>Properties of the catalog handlers\<close>

lemma emitEvent_products [simp]: "products (emitEvent ok now ty seller pid payload d) = products d"
  by (simp add: emitEvent_def)

lemma emitEvent_failed [simp]: "emitEvent False now ty seller pid payload d = d"
  by (simp add: emitEvent_def)

lemma low_stock_products [simp]:
  "products (snd (checkAndEmitLowStockWarning th a b now p seller d)) = products d"
  by (simp add: checkAndEmitLowStockWarning_def Let_def)

lemma low_stock_other_types:
  "ty \<noteq> ''LowStockWarning'' \<Longrightarrow>
   filter (\<lambda>e. ev_type e = ty) (events (snd (checkAndEmitLowStockWarning th a b now p seller d)))
   = filter (\<lambda>e. ev_type e = ty) (events d)"
  by (simp add: checkAndEmitLowStockWarning_def Let_def new_event_def)

lemma low_stock_fst:
  "fst (checkAndEmitLowStockWarning th a b now p seller d)
   = (if p_quantity p \<le> th \<and> \<not> (a \<and> b) then Some DbError else None)"
  by (simp add: checkAndEmitLowStockWarning_def Let_def)

lemma create_snd:
  "mutation_ok ev \<Longrightarrow>
   snd (create_product th ev now seller inp d)
   = snd (checkAndEmitLowStockWarning th (lowstock_ok ev) (verify_ok ev) now
            (created_row now seller inp d) seller
            (emitEvent (event_ok ev) now ''ProductCreated'' seller
               (Some (p_id (created_row now seller inp d)))
               (JObj [(''product'', product_json (created_row now seller inp d))])
               (d\<lparr>products := products d @ [created_row now seller inp d],
                  products_id_seq := products_id_seq d + 1\<rparr>)))"
  by (simp add: create_product_def Let_def split: option.split)

lemma create_fst:
  "mutation_ok ev \<Longrightarrow>
   fst (create_product th ev now seller inp d)
   = (if ci_quantity inp \<le> th \<and> \<not> (lowstock_ok ev \<and> verify_ok ev) then NextError DbError
      else Responded 201 (Some (created_row now seller inp d)))"
  by (simp add: create_product_def Let_def low_stock_fst created_row_def)

lemma create_event_lost:
  assumes "mutation_ok ev" and "\<not> event_ok ev"
  shows "products (snd (create_product th ev now seller inp d))
           = products d @ [created_row now seller inp d]
         \<and> filter (\<lambda>e. ev_type e = ''ProductCreated'')
              (events (snd (create_product th ev now seller inp d)))
           = filter (\<lambda>e. ev_type e = ''ProductCreated'') (events d)
         \<and> fst (create_product th ev now seller inp d)
           = fst (create_product th (ev\<lparr>event_ok := True\<rparr>) now seller inp d)"
  using assms by (simp add: create_snd create_fst low_stock_other_types)

lemma update_snd:
  "mutation_ok ev \<Longrightarrow> \<not> no_fields u \<Longrightarrow> filter (owned i seller) (products d) = old # rest \<Longrightarrow>
   snd (update_product th ev now seller (Some i) u d)
   = snd (checkAndEmitLowStockWarning th (lowstock_ok ev) (verify_ok ev) now
            (apply_update u now old) seller
            (emitEvent (event_ok ev) now ''ProductUpdated'' seller
               (Some (p_id (apply_update u now old)))
               (JObj [(''product'', product_json (apply_update u now old))])
               (d\<lparr>products := map (\<lambda>x. if owned i seller x then apply_update u now x else x)
                                   (products d)\<rparr>)))"
  by (simp add: update_product_def Let_def split: option.split)

lemma update_fst:
  "mutation_ok ev \<Longrightarrow> \<not> no_fields u \<Longrightarrow> filter (owned i seller) (products d) = old # rest \<Longrightarrow>
   fst (update_product th ev now seller (Some i) u d)
   = (if p_quantity (apply_update u now old) \<le> th \<and> \<not> (lowstock_ok ev \<and> verify_ok ev)
      then NextError DbError
      else Responded 200 (Some (apply_update u now old)))"
  by (simp add: update_product_def Let_def low_stock_fst)

lemma update_event_lost:
  assumes "mutation_ok ev" and "\<not> event_ok ev" and "\<not> no_fields u"
    and "filter (owned i seller) (products d) \<noteq> []"
  shows "products (snd (update_product th ev now seller (Some i) u d))
           = map (\<lambda>x. if owned i seller x then apply_update u now x else x) (products d)
         \<and> filter (\<lambda>e. ev_type e = ''ProductUpdated'')
              (events (snd (update_product th ev now seller (Some i) u d)))
           = filter (\<lambda>e. ev_type e = ''ProductUpdated'') (events d)
         \<and> fst (update_product th ev now seller (Some i) u d)
           = fst (update_product th (ev\<lparr>event_ok := True\<rparr>) now seller (Some i) u d)"
proof -
  obtain old rest where o: "filter (owned i seller) (products d) = old # rest"
    using assms(4) by (cases "filter (owned i seller) (products d)") simp_all
  have m: "mutation_ok (ev\<lparr>event_ok := True\<rparr>)" using assms(1) by simp
  show ?thesis
    using assms(2)
    by (simp add: update_snd [OF assms(1) assms(3) o] update_fst [OF assms(1) assms(3) o]
        update_fst [OF m assms(3) o] low_stock_other_types)
qed

lemma delete_tx_found:
  "filter (owned i seller) (products d) = r # rest \<Longrightarrow>
   delete_tx seller i d
   = (r # rest, d\<lparr>events := filter (\<lambda>e. \<not> sql_eq (ev_product_id e) (Some i)) (events d),
                   products := filter (\<lambda>p. \<not> owned i seller p) (products d)\<rparr>)"
  by (simp add: delete_tx_def Let_def)

lemma delete_tx_missing:
  "filter (owned i seller) (products d) = [] \<Longrightarrow> delete_tx seller i d = ([], d)"
  by (simp add: delete_tx_def Let_def)

lemma owned_head:
  "filter (owned i seller) ps = r # rest \<Longrightarrow> p_id r = i"
proof -
  assume "filter (owned i seller) ps = r # rest"
  then have "r \<in> set (filter (owned i seller) ps)" by simp
  then show ?thesis by (simp add: owned_def)
qed

lemma delete_found:
  assumes "mutation_ok ev" and "filter (owned i seller) (products d) = r # rest"
  shows "delete_product ev now seller (Some i) d
         = (Responded 200 None,
            emitEvent (event_ok ev) now ''ProductDeleted'' seller (Some i)
              (JObj [(''productId'', JNum i)]) (snd (delete_tx seller i d)))"
  using assms owned_head [OF assms(2)]
  by (simp add: delete_product_def delete_tx_found [OF assms(2)])

lemma delete_event_lost:
  assumes "mutation_ok ev" and "\<not> event_ok ev"
    and "filter (owned i seller) (products d) \<noteq> []"
  shows "products (snd (delete_product ev now seller (Some i) d))
           = filter (\<lambda>p. \<not> owned i seller p) (products d)
         \<and> events (snd (delete_product ev now seller (Some i) d))
           = filter (\<lambda>e. \<not> sql_eq (ev_product_id e) (Some i)) (events d)
         \<and> fst (delete_product ev now seller (Some i) d) = Responded 200 None"
proof -
  obtain r rest where o: "filter (owned i seller) (products d) = r # rest"
    using assms(3) by (cases "filter (owned i seller) (products d)") simp_all
  show ?thesis
    using assms(2) by (simp add: delete_found [OF assms(1) o] delete_tx_found [OF o])
qed

lemma failed_mutation:
  "\<not> mutation_ok ev \<Longrightarrow>
   snd (create_product th ev now seller inp d) = d
   \<and> snd (update_product th ev now seller ident u d) = d
   \<and> snd (delete_product ev now seller ident d) = d"
  by (simp add: create_product_def update_product_def delete_product_def split: option.split)

lemma missing_product:
  "filter (owned i seller) (products d) = [] \<Longrightarrow>
   snd (update_product th ev now seller (Some i) u d) = d
   \<and> snd (delete_product ev now seller (Some i) d) = d"
  by (simp add: update_product_def delete_product_def delete_tx_missing)

lemma unique_owner:
  assumes "distinct (map p_id ps)" and "filter (owned i seller) ps \<noteq> []"
  shows "i \<notin> p_id ` set (filter (\<lambda>p. \<not> owned i seller p) ps)"
proof
  assume "i \<in> p_id ` set (filter (\<lambda>p. \<not> owned i seller p) ps)"
  then obtain x where x: "x \<in> set ps" "\<not> owned i seller x" "p_id x = i" by auto
  from assms(2) obtain r where r: "r \<in> set ps" "owned i seller r"
    by (metis filter_False)
  then have "p_id r = p_id x" using x(3) by (simp add: owned_def)
  with assms(1) r(1) x(1) have "r = x" by (meson distinct_map inj_onD)
  with r(2) x(2) show False by simp
qed

lemmas example_defs = mug_input_def lamp_input_def all_ok_def shop_def

lemma shop_products:
  "products shop = [\<lparr>p_id = 1, p_seller_id = ''s1'', p_name = ''Mug'', p_description = [],
     p_price = 1250, p_quantity = 3, p_category = ''Kitchen'', p_created_at = 0,
     p_updated_at = 0\<rparr>]"
  by (simp add: example_defs db_defs)

lemma shop_events:
  "map ev_type (events shop) = [''ProductCreated'', ''LowStockWarning'']
   \<and> map ev_product_id (events shop) = [Some 1, Some 1]"
  by (simp add: example_defs db_defs)

section \<open>Claims about the catalog handlers\<close>

text \<open>
  Claim C1 (primary lifecycle event), as the code has it. The event of a create, update or
  delete is inserted by \<open>emitEvent\<close> after the mutation has taken effect (for delete,
  after \<open>COMMIT\<close>) and outside any transaction of the mutation. When the insert fails,
  the mutation stays as it is, no event of that type is added, and the response is the one
  of a request whose insert succeeded. A mutation that fails, or finds no product of the
  seller, leaves the database as it was, so it has no event.
\<close>

theorem lifecycle_event_fate:
  "(mutation_ok ev \<and> \<not> event_ok ev \<longrightarrow>
      products (snd (create_product th ev now seller inp d))
        = products d @ [created_row now seller inp d]
      \<and> filter (\<lambda>e. ev_type e = ''ProductCreated'')
           (events (snd (create_product th ev now seller inp d)))
        = filter (\<lambda>e. ev_type e = ''ProductCreated'') (events d)
      \<and> fst (create_product th ev now seller inp d)
        = fst (create_product th (ev\<lparr>event_ok := True\<rparr>) now seller inp d))
   \<and> (mutation_ok ev \<and> \<not> event_ok ev \<and> \<not> no_fields u
        \<and> filter (owned i seller) (products d) \<noteq> [] \<longrightarrow>
      products (snd (update_product th ev now seller (Some i) u d))
        = map (\<lambda>x. if owned i seller x then apply_update u now x else x) (products d)
      \<and> filter (\<lambda>e. ev_type e = ''ProductUpdated'')
           (events (snd (update_product th ev now seller (Some i) u d)))
        = filter (\<lambda>e. ev_type e = ''ProductUpdated'') (events d)
      \<and> fst (update_product th ev now seller (Some i) u d)
        = fst (update_product th (ev\<lparr>event_ok := True\<rparr>) now seller (Some i) u d))
   \<and> (mutation_ok ev \<and> \<not> event_ok ev \<and> filter (owned i seller) (products d) \<noteq> [] \<longrightarrow>
      products (snd (delete_product ev now seller (Some i) d))
        = filter (\<lambda>p. \<not> owned i seller p) (products d)
      \<and> events (snd (delete_product ev now seller (Some i) d))
        = filter (\<lambda>e. \<not> sql_eq (ev_product_id e) (Some i)) (events d)
      \<and> fst (delete_product ev now seller (Some i) d) = Responded 200 None)
   \<and> (\<not> mutation_ok ev \<longrightarrow>
      snd (create_product th ev now seller inp d) = d
      \<and> snd (update_product th ev now seller ident u d) = d
      \<and> snd (delete_product ev now seller ident d) = d)
   \<and> (filter (owned i seller) (products d) = [] \<longrightarrow>
      snd (update_product th ev now seller (Some i) u d) = d
      \<and> snd (delete_product ev now seller (Some i) d) = d)"
proof (intro conjI impI)
  assume "mutation_ok ev \<and> \<not> event_ok ev"
  then have a: "mutation_ok ev" "\<not> event_ok ev" by simp_all
  note c = create_event_lost [OF a, of th now seller inp d]
  show "products (snd (create_product th ev now seller inp d))
        = products d @ [created_row now seller inp d]" using c by blast
  show "filter (\<lambda>e. ev_type e = ''ProductCreated'')
           (events (snd (create_product th ev now seller inp d)))
        = filter (\<lambda>e. ev_type e = ''ProductCreated'') (events d)" using c by blast
  show "fst (create_product th ev now seller inp d)
        = fst (create_product th (ev\<lparr>event_ok := True\<rparr>) now seller inp d)" using c by blast
next
  assume "mutation_ok ev \<and> \<not> event_ok ev \<and> \<not> no_fields u
          \<and> filter (owned i seller) (products d) \<noteq> []"
  then have a: "mutation_ok ev" "\<not> event_ok ev" "\<not> no_fields u"
    "filter (owned i seller) (products d) \<noteq> []" by simp_all
  note c = update_event_lost [OF a, of th now]
  show "products (snd (update_product th ev now seller (Some i) u d))
        = map (\<lambda>x. if owned i seller x then apply_update u now x else x) (products d)"
    using c by blast
  show "filter (\<lambda>e. ev_type e = ''ProductUpdated'')
           (events (snd (update_product th ev now seller (Some i) u d)))
        = filter (\<lambda>e. ev_type e = ''ProductUpdated'') (events d)" using c by blast
  show "fst (update_product th ev now seller (Some i) u d)
        = fst (update_product th (ev\<lparr>event_ok := True\<rparr>) now seller (Some i) u d)"
    using c by blast
next
  assume "mutation_ok ev \<and> \<not> event_ok ev \<and> filter (owned i seller) (products d) \<noteq> []"
  then have a: "mutation_ok ev" "\<not> event_ok ev" "filter (owned i seller) (products d) \<noteq> []"
    by simp_all
  note c = delete_event_lost [OF a, of now]
  show "products (snd (delete_product ev now seller (Some i) d))
        = filter (\<lambda>p. \<not> owned i seller p) (products d)" using c by blast
  show "events (snd (delete_product ev now seller (Some i) d))
        = filter (\<lambda>e. \<not> sql_eq (ev_product_id e) (Some i)) (events d)" using c by blast
  show "fst (delete_product ev now seller (Some i) d) = Responded 200 None" using c by blast
next
  assume a: "\<not> mutation_ok ev"
  note c = failed_mutation [OF a, of th now seller inp d ident u]
  show "snd (create_product th ev now seller inp d) = d" using c by blast
  show "snd (update_product th ev now seller ident u d) = d" using c by blast
  show "snd (delete_product ev now seller ident d) = d" using c by blast
next
  assume a: "filter (owned i seller) (products d) = []"
  note c = missing_product [OF a, of th ev now u]
  show "snd (update_product th ev now seller (Some i) u d) = d" using c by blast
  show "snd (delete_product ev now seller (Some i) d) = d" using c by blast
qed

theorem lifecycle_event_fate_witness:
  "map p_name (products (snd (create_product 5 (all_ok\<lparr>event_ok := False\<rparr>) 20 ''s1''
        lamp_input shop))) = [''Mug'', ''Lamp'']
   \<and> map ev_type (events (snd (create_product 5 (all_ok\<lparr>event_ok := False\<rparr>) 20 ''s1''
        lamp_input shop))) = [''ProductCreated'', ''LowStockWarning'']
   \<and> products (snd (delete_product (all_ok\<lparr>event_ok := False\<rparr>) 20 ''s1'' (Some 1) shop)) = []
   \<and> events (snd (delete_product (all_ok\<lparr>event_ok := False\<rparr>) 20 ''s1'' (Some 1) shop)) = []
   \<and> fst (delete_product (all_ok\<lparr>event_ok := False\<rparr>) 20 ''s1'' (Some 1) shop)
     = Responded 200 None
   \<and> snd (create_product 5 (all_ok\<lparr>mutation_ok := False\<rparr>) 20 ''s1'' lamp_input shop) = shop
   \<and> snd (delete_product all_ok 20 ''s2'' (Some 1) shop) = shop"
proof -
  let ?lost = "all_ok\<lparr>event_ok := False\<rparr>"
  let ?down = "all_ok\<lparr>mutation_ok := False\<rparr>"
  have l: "mutation_ok ?lost \<and> \<not> event_ok ?lost" by (simp add: all_ok_def)
  have o: "filter (owned 1 ''s1'') (products shop) \<noteq> []" by (simp add: shop_products owned_def)
  have o': "filter (owned 1 ''s2'') (products shop) = []" by (simp add: shop_products owned_def)
  have dn: "\<not> mutation_ok ?down" by (simp add: all_ok_def)
  note t = lifecycle_event_fate [where ev = ?lost and th = 5 and now = 20 and seller = "''s1''"
      and inp = lamp_input and d = shop and i = 1]
  note t2 = lifecycle_event_fate [where ev = ?down and th = 5 and now = 20 and seller = "''s1''"
      and inp = lamp_input and d = shop]
  note t3 = lifecycle_event_fate [where ev = all_ok and now = 20 and seller = "''s2''"
      and d = shop and i = 1]
  have c1: "products (snd (create_product 5 ?lost 20 ''s1'' lamp_input shop))
            = products shop @ [created_row 20 ''s1'' lamp_input shop]"
    using t l by blast
  have c2: "events (snd (create_product 5 ?lost 20 ''s1'' lamp_input shop)) = events shop"
    by (simp add: create_snd l checkAndEmitLowStockWarning_def lamp_input_def created_row_def
        all_ok_def)
  have d1: "products (snd (delete_product ?lost 20 ''s1'' (Some 1) shop))
            = filter (\<lambda>p. \<not> owned 1 ''s1'' p) (products shop)"
    using t l o by blast
  have d2: "events (snd (delete_product ?lost 20 ''s1'' (Some 1) shop))
            = filter (\<lambda>e. \<not> sql_eq (ev_product_id e) (Some 1)) (events shop)"
    using t l o by blast
  have d3: "fst (delete_product ?lost 20 ''s1'' (Some 1) shop) = Responded 200 None"
    using t l o by blast
  have m: "snd (create_product 5 ?down 20 ''s1'' lamp_input shop) = shop"
    using t2 dn by blast
  have n: "snd (delete_product all_ok 20 ''s2'' (Some 1) shop) = shop"
    using t3 o' by blast
  have e: "filter (\<lambda>e. \<not> sql_eq (ev_product_id e) (Some 1)) (events shop) = []"
    by (simp add: example_defs db_defs)
  show ?thesis
    using c1 c2 d1 d2 d3 m n e shop_events
    by (simp add: shop_products owned_def created_row_def lamp_input_def)
qed

text \<open>
  The claim as the specification states it wants the mutation aborted when the insert
  of its event fails. Below the insert fails: the product is stored, the response is 201,
  and the Event Store is empty.
\<close>

theorem lifecycle_event_counterexample:
  "fst (create_product 5 (all_ok\<lparr>event_ok := False\<rparr>) 0 ''s1'' lamp_input db_init)
     = Responded 201 (Some (created_row 0 ''s1'' lamp_input db_init))
   \<and> map p_name (products (snd (create_product 5 (all_ok\<lparr>event_ok := False\<rparr>) 0 ''s1''
         lamp_input db_init))) = [''Lamp'']
   \<and> events (snd (create_product 5 (all_ok\<lparr>event_ok := False\<rparr>) 0 ''s1''
         lamp_input db_init)) = []"
  by (simp add: example_defs db_defs)

text \<open>
  Claim C3 (low-stock failure), as the code has it. When the primary event of a create or
  update has been stored and the insert of the \<open>LowStockWarning\<close> fails,
  \<open>checkAndEmitLowStockWarning\<close> rethrows and the handler passes the error to
  \<open>next\<close>: the request fails, while the product change and its primary event stay in
  the database.
\<close>

theorem low_stock_failure_fails_request:
  "(mutation_ok ev \<and> event_ok ev \<and> \<not> lowstock_ok ev \<and> ci_quantity inp \<le> th \<longrightarrow>
      create_product th ev now seller inp d
      = (NextError DbError,
         insert_event now ''ProductCreated'' seller (Some (products_id_seq d))
           (JObj [(''product'', product_json (created_row now seller inp d))])
           (d\<lparr>products := products d @ [created_row now seller inp d],
              products_id_seq := products_id_seq d + 1\<rparr>)))
   \<and> (mutation_ok ev \<and> event_ok ev \<and> \<not> lowstock_ok ev \<and> \<not> no_fields u
        \<and> filter (owned i seller) (products d) = old # rest
        \<and> p_quantity (apply_update u now old) \<le> th \<longrightarrow>
      update_product th ev now seller (Some i) u d
      = (NextError DbError,
         insert_event now ''ProductUpdated'' seller (Some (p_id old))
           (JObj [(''product'', product_json (apply_update u now old))])
           (d\<lparr>products := map (\<lambda>x. if owned i seller x then apply_update u now x else x)
                               (products d)\<rparr>)))"
proof (intro conjI impI)
  assume a: "mutation_ok ev \<and> event_ok ev \<and> \<not> lowstock_ok ev \<and> ci_quantity inp \<le> th"
  then have "fst (create_product th ev now seller inp d) = NextError DbError"
    by (simp add: create_fst)
  moreover from a have "snd (create_product th ev now seller inp d)
      = insert_event now ''ProductCreated'' seller (Some (products_id_seq d))
           (JObj [(''product'', product_json (created_row now seller inp d))])
           (d\<lparr>products := products d @ [created_row now seller inp d],
              products_id_seq := products_id_seq d + 1\<rparr>)"
    by (simp add: create_snd checkAndEmitLowStockWarning_def emitEvent_def created_row_def)
  ultimately show "create_product th ev now seller inp d
      = (NextError DbError,
         insert_event now ''ProductCreated'' seller (Some (products_id_seq d))
           (JObj [(''product'', product_json (created_row now seller inp d))])
           (d\<lparr>products := products d @ [created_row now seller inp d],
              products_id_seq := products_id_seq d + 1\<rparr>))"
    by (simp add: prod_eq_iff)
next
  assume a: "mutation_ok ev \<and> event_ok ev \<and> \<not> lowstock_ok ev \<and> \<not> no_fields u
        \<and> filter (owned i seller) (products d) = old # rest
        \<and> p_quantity (apply_update u now old) \<le> th"
  then have m: "mutation_ok ev" and n: "\<not> no_fields u"
    and o: "filter (owned i seller) (products d) = old # rest" by simp_all
  have "fst (update_product th ev now seller (Some i) u d) = NextError DbError"
    using a by (simp add: update_fst [OF m n o])
  moreover have "snd (update_product th ev now seller (Some i) u d)
      = insert_event now ''ProductUpdated'' seller (Some (p_id old))
           (JObj [(''product'', product_json (apply_update u now old))])
           (d\<lparr>products := map (\<lambda>x. if owned i seller x then apply_update u now x else x)
                               (products d)\<rparr>)"
    using a by (simp add: update_snd [OF m n o] checkAndEmitLowStockWarning_def emitEvent_def
        apply_update_def)
  ultimately show "update_product th ev now seller (Some i) u d
      = (NextError DbError,
         insert_event now ''ProductUpdated'' seller (Some (p_id old))
           (JObj [(''product'', product_json (apply_update u now old))])
           (d\<lparr>products := map (\<lambda>x. if owned i seller x then apply_update u now x else x)
                               (products d)\<rparr>))"
    by (simp add: prod_eq_iff)
qed

theorem low_stock_failure_witness:
  "create_product 5 (all_ok\<lparr>lowstock_ok := False\<rparr>) 20 ''s1'' mug_input shop
     = (NextError DbError,
        insert_event 20 ''ProductCreated'' ''s1'' (Some 2)
          (JObj [(''product'', product_json (created_row 20 ''s1'' mug_input shop))])
          (shop\<lparr>products := products shop @ [created_row 20 ''s1'' mug_input shop],
             products_id_seq := 3\<rparr>))
   \<and> fst (update_product 5 (all_ok\<lparr>lowstock_ok := False\<rparr>) 20 ''s1'' (Some 1)
          \<lparr>ui_name = None, ui_description = None, ui_price = None, ui_quantity = Some 2,
           ui_category = None\<rparr> shop) = NextError DbError
   \<and> map p_quantity (products (snd (update_product 5 (all_ok\<lparr>lowstock_ok := False\<rparr>) 20 ''s1''
          (Some 1) \<lparr>ui_name = None, ui_description = None, ui_price = None, ui_quantity = Some 2,
           ui_category = None\<rparr> shop))) = [2]"
proof -
  let ?ev = "all_ok\<lparr>lowstock_ok := False\<rparr>"
  let ?u = "\<lparr>ui_name = None, ui_description = None, ui_price = None, ui_quantity = Some 2,
             ui_category = None\<rparr>"
  let ?old = "\<lparr>p_id = 1, p_seller_id = ''s1'', p_name = ''Mug'', p_description = [],
     p_price = 1250, p_quantity = 3, p_category = ''Kitchen'', p_created_at = 0,
     p_updated_at = 0\<rparr>"
  have a: "mutation_ok ?ev \<and> event_ok ?ev \<and> \<not> lowstock_ok ?ev \<and> ci_quantity mug_input \<le> 5"
    by (simp add: example_defs)
  have b: "mutation_ok ?ev \<and> event_ok ?ev \<and> \<not> lowstock_ok ?ev \<and> \<not> no_fields ?u
        \<and> filter (owned 1 ''s1'') (products shop) = ?old # []
        \<and> p_quantity (apply_update ?u 20 ?old) \<le> 5"
    by (simp add: all_ok_def shop_products owned_def no_fields_def apply_update_def)
  have q: "products_id_seq shop = 2" by (simp add: example_defs db_defs)
  note t = low_stock_failure_fails_request [where ev = ?ev and th = 5 and now = 20
      and seller = "''s1''" and inp = mug_input and d = shop and u = ?u and i = 1 and old = ?old
      and rest = "[]"]
  have c: "create_product 5 ?ev 20 ''s1'' mug_input shop
     = (NextError DbError,
        insert_event 20 ''ProductCreated'' ''s1'' (Some 2)
          (JObj [(''product'', product_json (created_row 20 ''s1'' mug_input shop))])
          (shop\<lparr>products := products shop @ [created_row 20 ''s1'' mug_input shop],
             products_id_seq := 3\<rparr>))"
    using t a by (simp add: q)
  have u: "update_product 5 ?ev 20 ''s1'' (Some 1) ?u shop
      = (NextError DbError,
         insert_event 20 ''ProductUpdated'' ''s1'' (Some (p_id ?old))
           (JObj [(''product'', product_json (apply_update ?u 20 ?old))])
           (shop\<lparr>products := map (\<lambda>x. if owned 1 ''s1'' x then apply_update ?u 20 x else x)
                               (products shop)\<rparr>))"
    using t b by blast
  have "fst (update_product 5 ?ev 20 ''s1'' (Some 1) ?u shop) = NextError DbError"
    by (simp add: u)
  moreover have "map p_quantity (products (snd (update_product 5 ?ev 20 ''s1'' (Some 1) ?u shop)))
                 = [2]"
    by (simp add: u shop_products owned_def apply_update_def)
  ultimately show ?thesis using c by simp
qed

text \<open>
  The claim as the specification states it says that the failure does not fail the
  request. Below the low-stock insert fails for a product created with three pieces: the
  product and its \<open>ProductCreated\<close> event are stored, and the request ends in an
  error.
\<close>

theorem low_stock_failure_counterexample:
  "event_ok (all_ok\<lparr>lowstock_ok := False\<rparr>)
   \<and> fst (create_product 5 (all_ok\<lparr>lowstock_ok := False\<rparr>) 0 ''s1'' mug_input db_init)
     = NextError DbError
   \<and> map p_name (products (snd (create_product 5 (all_ok\<lparr>lowstock_ok := False\<rparr>) 0 ''s1''
        mug_input db_init))) = [''Mug'']
   \<and> map ev_type (events (snd (create_product 5 (all_ok\<lparr>lowstock_ok := False\<rparr>) 0 ''s1''
        mug_input db_init))) = [''ProductCreated'']"
  by (simp add: example_defs db_defs)

text \<open>
  Claim C6 (deletion and events), as the code has it. For a product of the seller, with
  product ids unique: when the transaction of the delete handler commits, no event row
  refers to the product and no product has its id; the handler then inserts the
  \<open>ProductDeleted\<close> event, so at the end of the request the rows that refer to the
  deleted product are that one row when its insert succeeds, and none when it fails.
\<close>

theorem delete_removes_events:
  assumes "mutation_ok ev" and "distinct (map p_id (products d))"
    and "filter (owned i seller) (products d) \<noteq> []"
  shows "filter (\<lambda>e. sql_eq (ev_product_id e) (Some i)) (events (snd (delete_tx seller i d))) = []
         \<and> i \<notin> p_id ` set (products (snd (delete_tx seller i d)))
         \<and> products (snd (delete_product ev now seller (Some i) d))
           = products (snd (delete_tx seller i d))
         \<and> filter (\<lambda>e. sql_eq (ev_product_id e) (Some i))
              (events (snd (delete_product ev now seller (Some i) d)))
           = (if event_ok ev
              then [new_event now ''ProductDeleted'' seller (Some i) (JObj [(''productId'', JNum i)])
                      (snd (delete_tx seller i d))]
              else [])"
proof -
  obtain r rest where o: "filter (owned i seller) (products d) = r # rest"
    using assms(3) by (cases "filter (owned i seller) (products d)") simp_all
  have t: "snd (delete_tx seller i d)
           = d\<lparr>events := filter (\<lambda>e. \<not> sql_eq (ev_product_id e) (Some i)) (events d),
               products := filter (\<lambda>p. \<not> owned i seller p) (products d)\<rparr>"
    by (simp add: delete_tx_found [OF o])
  have e: "filter (\<lambda>e. sql_eq (ev_product_id e) (Some i)) (events (snd (delete_tx seller i d))) = []"
    by (simp add: t)
  have p: "i \<notin> p_id ` set (products (snd (delete_tx seller i d)))"
    using unique_owner [OF assms(2) assms(3)] by (simp add: t)
  have h: "snd (delete_product ev now seller (Some i) d)
           = emitEvent (event_ok ev) now ''ProductDeleted'' seller (Some i)
               (JObj [(''productId'', JNum i)]) (snd (delete_tx seller i d))"
    by (simp add: delete_found [OF assms(1) o])
  have "filter (\<lambda>e. sql_eq (ev_product_id e) (Some i))
              (events (snd (delete_product ev now seller (Some i) d)))
           = (if event_ok ev
              then [new_event now ''ProductDeleted'' seller (Some i) (JObj [(''productId'', JNum i)])
                      (snd (delete_tx seller i d))]
              else [])"
    unfolding h using e by (simp add: emitEvent_def new_event_def)
  moreover have "products (snd (delete_product ev now seller (Some i) d))
           = products (snd (delete_tx seller i d))"
    unfolding h by simp
  ultimately show ?thesis using e p by simp
qed

theorem delete_removes_events_witness:
  "mutation_ok all_ok \<and> distinct (map p_id (products shop))
   \<and> filter (owned 1 ''s1'') (products shop) \<noteq> []
   \<and> events (snd (delete_tx ''s1'' 1 shop)) = []
   \<and> products (snd (delete_product all_ok 20 ''s1'' (Some 1) shop)) = []
   \<and> map ev_type (filter (\<lambda>e. sql_eq (ev_product_id e) (Some 1))
        (events (snd (delete_product all_ok 20 ''s1'' (Some 1) shop)))) = [''ProductDeleted'']"
proof -
  have m: "mutation_ok all_ok" by (simp add: all_ok_def)
  have d: "distinct (map p_id (products shop))" by (simp add: shop_products)
  have o: "filter (owned 1 ''s1'') (products shop) \<noteq> []" by (simp add: shop_products owned_def)
  have k: "event_ok all_ok" by (simp add: all_ok_def)
  note t = delete_removes_events [OF m d o, of 20]
  have e: "events (snd (delete_tx ''s1'' 1 shop)) = []" by (simp add: example_defs db_defs)
  have p: "products (snd (delete_tx ''s1'' 1 shop)) = []" by (simp add: example_defs db_defs)
  from t have "products (snd (delete_product all_ok 20 ''s1'' (Some 1) shop)) = []"
    by (simp add: p)
  moreover from t k have "map ev_type (filter (\<lambda>e. sql_eq (ev_product_id e) (Some 1))
        (events (snd (delete_product all_ok 20 ''s1'' (Some 1) shop)))) = [''ProductDeleted'']"
    by (simp add: new_event_def)
  ultimately show ?thesis using m d o e by simp
qed

text \<open>
  The claim as the specification states it says that after the deletion the Event Store
  holds no row referring to the deleted product. Below product 1 is deleted: no product is
  left, and the Event Store holds the \<open>ProductDeleted\<close> row with product id 1.
\<close>

theorem delete_event_counterexample:
  "fst (delete_product all_ok 20 ''s1'' (Some 1) shop) = Responded 200 None
   \<and> products (snd (delete_product all_ok 20 ''s1'' (Some 1) shop)) = []
   \<and> map ev_type (events (snd (delete_product all_ok 20 ''s1'' (Some 1) shop)))
     = [''ProductDeleted'']
   \<and> map ev_product_id (events (snd (delete_product all_ok 20 ''s1'' (Some 1) shop)))
     = [Some 1]"
  by (simp add: example_defs db_defs)

section \<open>Properties of the heartbeat schedule\<close>


































section \<open>Claim about liveness\<close>




end
